theory Spec2Isabelle
  imports Main "HOL-Library.AList"
begin

section \<open>Values, keys and messages\<close>

text \<open>
  The core service of bbc-simple (\<open>bbc_simple/core/bbc_core.py\<close>) handles messages that
  are Python dictionaries from \<open>KeyType\<close> members to values. The members of
  \<open>KeyType\<close>, of \<open>MsgType\<close> and the error codes of \<open>bbc_error\<close> are integers
  defined in modules outside the sources at hand; they are kept symbolic here, one
  constructor per name that \<open>bbc_core.py\<close> mentions.
\<close>

datatype error = KeyError | TypeError | IndexError | AttributeError | OverflowError | NotEmbedded

datatype msg_type =
    REQUEST_SEARCH_TRANSACTION | RESPONSE_SEARCH_TRANSACTION
  | REQUEST_SEARCH_WITH_CONDITIONS | RESPONSE_SEARCH_WITH_CONDITIONS
  | REQUEST_COUNT_TRANSACTIONS | RESPONSE_COUNT_TRANSACTIONS
  | REQUEST_TRAVERSE_TRANSACTIONS | RESPONSE_TRAVERSE_TRANSACTIONS
  | REQUEST_GATHER_SIGNATURE | RESPONSE_GATHER_SIGNATURE
  | REQUEST_SIGNATURE | RESPONSE_SIGNATURE
  | REQUEST_INSERT | RESPONSE_INSERT
  | MESSAGE | REGISTER | UNREGISTER
  | REQUEST_INSERT_NOTIFICATION | CANCEL_INSERT_NOTIFICATION
  | REQUEST_GET_STATS | REQUEST_GET_CONFIG | REQUEST_GET_DOMAINLIST
  | REQUEST_GET_USERS | REQUEST_GET_NODEID | REQUEST_GET_NOTIFICATION_LIST
  | REQUEST_SETUP_DOMAIN | REQUEST_CLOSE_DOMAIN | REQUEST_GET_STORED_MESSAGES

datatype status_code = ESUCCESS | EINVALID_COMMAND | ENOTRANSACTION | EBADTRANSACTION | EOTHER

datatype key_type =
    K_domain_id | K_command | K_source_user_id | K_destination_user_id
  | K_destination_user_ids | K_query_id | K_status | K_reason
  | K_transaction_id | K_transaction_data | K_compromised_transaction_data
  | K_transactions | K_compromised_transactions
  | K_asset_group_id | K_asset_id | K_user_id | K_count | K_direction | K_hop_count
  | K_transaction_tree | K_all_included | K_hint

text \<open>
  A value of a message. \<open>VBytes\<close> is Python \<open>bytes\<close>, \<open>VStr\<close> is \<open>str\<close>;
  \<open>VCmd\<close> and \<open>VStatus\<close> are the symbolic \<open>MsgType\<close> members and error codes.
\<close>

datatype pyval =
    VNone | VBool bool | VInt int | VBytes string | VStr string
  | VList "pyval list" | VCmd msg_type | VStatus status_code

text \<open>A Python \<open>dict\<close> keeps insertion order: an association list with unique keys.\<close>

type_synonym message = "(key_type \<times> pyval) list"

section \<open>Collaborators: transaction objects and the storage handle\<close>

text \<open>
  \<open>BBcTransaction\<close> belongs to \<open>bbclib\<close>; the core reads two attributes of it.
\<close>

record txobj =
  transaction_id :: string
  transaction_data :: string

text \<open>
  The data handler \<open>self.networking.domains[domain_id]['data']\<close> is a collaborator whose
  code is outside the sources; its methods are parameters of the model, each a function
  of the arguments the core passes. A returned \<open>dict\<close> is an association list from
  transaction id to object, a returned \<open>None\<close> is \<open>None\<close>.
  \<^item> \<open>search_transaction\<close> is the call \<open>search_transaction(transaction_id=txid)\<close>;
  \<^item> \<open>search_transaction_cond\<close> is the call with \<open>asset_group_id\<close>, \<open>asset_id\<close>,
    \<open>user_id\<close>, \<open>direction\<close> and \<open>count\<close>;
  \<^item> \<open>get_asset_info\<close> yields triples \<open>(asset_group_id, asset_id, user_id)\<close>;
  \<^item> \<open>search_transaction_topology\<close> yields rows of which the core reads index 1 and
    index 2;
  \<^item> \<open>dh_insert_transaction\<close> is the handler's \<open>insert_transaction(txdata, txobj)\<close>.
\<close>

type_synonym txdict = "(string \<times> txobj) list"

record data_handler =
  search_transaction :: "string \<Rightarrow> txdict option"
  search_transaction_cond :: "pyval \<Rightarrow> pyval \<Rightarrow> pyval \<Rightarrow> pyval \<Rightarrow> pyval \<Rightarrow> txdict option"
  get_asset_info :: "txobj \<Rightarrow> (string \<times> string \<times> string) list"
  search_transaction_topology :: "string \<Rightarrow> bool \<Rightarrow> (nat \<times> string \<times> string) list option"
  dh_insert_transaction :: "string \<Rightarrow> txobj \<Rightarrow> string list option"

section \<open>The traversal \<open>_traverse_transactions\<close>\<close>

definition TX_TRAVERSAL_MAX :: nat where
  "TX_TRAVERSAL_MAX = 30"

text \<open>
  The local variables of \<open>_traverse_transactions\<close>. \<open>txids\<close> is the dictionary of
  visited ids, kept as the list of its keys in insertion order. \<open>raised\<close> holds an
  exception once one is raised; nothing runs after it. Three fields are not variables of
  the source but record what it does: \<open>searched\<close> lists the ids passed to
  \<open>dh.search_transaction\<close>, \<open>expanded\<close> the ids passed to
  \<open>dh.search_transaction_topology\<close>, both in call order, and \<open>layers_done\<close> counts
  the iterations of the outer loop that ran past the entry check.
\<close>

record trav =
  tx_count :: nat
  txids :: "string list"
  current_txids :: "string list"
  include_all_flag :: bool
  txtree :: "string list list"
  tx_brothers :: "string list"
  next_txids :: "string list"
  raised :: "error option"
  searched :: "string list"
  expanded :: "string list"
  layers_done :: nat

text \<open>
  Lines 690 to 698: the loop over the asset records of one transaction. The argument
  \<open>flag\<close> is the value of the variable before the loop (\<open>False\<close> at line 690); a
  record that matches every given filter ends the loop with \<open>True\<close>.
\<close>

fun asset_flag :: "string option \<Rightarrow> string option \<Rightarrow> (string \<times> string \<times> string) list \<Rightarrow> bool \<Rightarrow> bool" where
  "asset_flag asset_group_id user_id [] flag = flag"
| "asset_flag asset_group_id user_id ((asgid, asset_id, uid) # rest) flag =
     (let flag1 = True;
          flag2 = (if asset_group_id \<noteq> None \<and> Some asgid \<noteq> asset_group_id then False else flag1);
          flag3 = (if user_id \<noteq> None \<and> Some uid \<noteq> user_id then False else flag2)
      in if flag3 then flag3 else asset_flag asset_group_id user_id rest flag3)"

text \<open>Lines 707 to 710: the neighbour a topology row names.\<close>

definition next_txid :: "bool \<Rightarrow> nat \<times> string \<times> string \<Rightarrow> string" where
  "next_txid traverse_to_past topology =
     (if traverse_to_past then snd (snd topology) else fst (snd topology))"

text \<open>Lines 706 to 712: the loop over the topology rows of one transaction.\<close>

fun topology_loop :: "bool \<Rightarrow> string list \<Rightarrow> (nat \<times> string \<times> string) list \<Rightarrow> string list \<Rightarrow> string list" where
  "topology_loop traverse_to_past ids [] nxt = nxt"
| "topology_loop traverse_to_past ids (topology # rest) nxt =
     topology_loop traverse_to_past ids rest
       (if next_txid traverse_to_past topology \<notin> set ids
        then nxt @ [next_txid traverse_to_past topology] else nxt)"

text \<open>Lines 682 to 712: the body of the loop over \<open>current_txids\<close>, for one id.\<close>

definition visit :: "data_handler \<Rightarrow> string option \<Rightarrow> string option \<Rightarrow> bool \<Rightarrow> trav \<Rightarrow> string \<Rightarrow> trav" where
  "visit dh asset_group_id user_id traverse_to_past st txid =
     (if raised st \<noteq> None then st
      else if txid \<in> set (txids st) then st
      else
        let st1 = st\<lparr>tx_count := tx_count st + 1, txids := txids st @ [txid],
                     searched := searched st @ [txid]\<rparr>
        in case search_transaction dh txid of
             None \<Rightarrow> st1
           | Some ret_txobj \<Rightarrow>
               if ret_txobj = [] then st1
               else (case map_of ret_txobj txid of
                  None \<Rightarrow> st1\<lparr>raised := Some KeyError\<rparr>
                | Some obj \<Rightarrow>
                    if (asset_group_id \<noteq> None \<or> user_id \<noteq> None)
                       \<and> \<not> asset_flag asset_group_id user_id (get_asset_info dh obj) False
                    then st1
                    else
                      let st2 = st1\<lparr>tx_brothers := tx_brothers st1 @ [transaction_data obj],
                                    expanded := expanded st1 @ [txid]\<rparr>
                      in case search_transaction_topology dh txid traverse_to_past of
                           None \<Rightarrow> st2
                         | Some ret \<Rightarrow>
                             st2\<lparr>next_txids :=
                               topology_loop traverse_to_past (txids st2) ret (next_txids st2)\<rparr>))"

text \<open>Lines 674 to 715 after the entry check: one layer.\<close>

definition layer :: "data_handler \<Rightarrow> string option \<Rightarrow> string option \<Rightarrow> bool \<Rightarrow> trav \<Rightarrow> trav" where
  "layer dh asset_group_id user_id traverse_to_past st =
     (let st1 = foldl (visit dh asset_group_id user_id traverse_to_past)
                  (st\<lparr>tx_brothers := [], next_txids := [], layers_done := layers_done st + 1\<rparr>)
                  (current_txids st)
      in if raised st1 \<noteq> None then st1
         else st1\<lparr>txtree := (if length (tx_brothers st1) > 0
                               then txtree st1 @ [tx_brothers st1] else txtree st1),
                   current_txids := next_txids st1\<rparr>)"

text \<open>
  Lines 673 to 715: \<open>for i in range(hop_count)\<close>, with the number of iterations left
  as the recursion argument. The \<open>break\<close> of line 679 ends the loop.
\<close>

fun traverse_loop :: "data_handler \<Rightarrow> string option \<Rightarrow> string option \<Rightarrow> bool \<Rightarrow> nat \<Rightarrow> trav \<Rightarrow> trav" where
  "traverse_loop dh asset_group_id user_id traverse_to_past 0 st = st"
| "traverse_loop dh asset_group_id user_id traverse_to_past (Suc n) st =
     (if tx_count st + length (current_txids st) > TX_TRAVERSAL_MAX
      then st\<lparr>include_all_flag := False\<rparr>
      else
        let st1 = layer dh asset_group_id user_id traverse_to_past st
        in if raised st1 \<noteq> None then st1
           else traverse_loop dh asset_group_id user_id traverse_to_past n st1)"

text \<open>Lines 663 to 672: the state before the loop, and the clamp of \<open>hop_count\<close>.\<close>

definition traverse_start :: "string \<Rightarrow> int \<Rightarrow> trav" where
  "traverse_start txid hop_count =
     \<lparr>tx_count = 0, txids = [], current_txids = [txid],
      include_all_flag = \<not> (hop_count > int (TX_TRAVERSAL_MAX * 2)),
      txtree = [], tx_brothers = [], next_txids = [], raised = None,
      searched = [], expanded = [], layers_done = 0\<rparr>"

definition clamped_hop_count :: "int \<Rightarrow> nat" where
  "clamped_hop_count hop_count =
     nat (if hop_count > int (TX_TRAVERSAL_MAX * 2) then int (TX_TRAVERSAL_MAX * 2) else hop_count)"

text \<open>The state in which the loop of \<open>_traverse_transactions\<close> ends.\<close>

definition traverse_final :: "data_handler \<Rightarrow> string \<Rightarrow> string option \<Rightarrow> string option \<Rightarrow> int \<Rightarrow> int \<Rightarrow> trav" where
  "traverse_final dh txid asset_group_id user_id direction hop_count =
     traverse_loop dh asset_group_id user_id (direction = 1) (clamped_hop_count hop_count)
       (traverse_start txid hop_count)"

section \<open>The core service: domains, collaborators, effects\<close>

text \<open>
  An entry of \<open>self.networking.domains\<close>: the data handler under \<open>'data'\<close> and the
  display name under \<open>'name'\<close>. The routing table under \<open>'user'\<close> is a collaborator
  outside the sources: a call of its \<open>send_message_to_user\<close> is recorded as an effect.
\<close>

record domain =
  domain_data :: data_handler
  domain_name :: string

text \<open>
  What the core reads of its environment: the registered domains, and three functions
  of \<open>bbclib\<close>. \<open>deserialize\<close> is \<open>BBcTransaction().deserialize(txdata)\<close>, with
  \<open>None\<close> where the call returns a false value; \<open>digest\<close> is \<open>txobj.digest()\<close>;
  \<open>validate_transaction_object\<close> returns the triple that line 475 unpacks as
  \<open>flag, valid_asset, invalid_asset\<close>. Statistics counters and log lines are left out;
  the arguments of a log call are kept where evaluating them can raise.
\<close>

record core =
  domains :: "(string \<times> domain) list"
  deserialize :: "string \<Rightarrow> txobj option"
  digest :: "txobj \<Rightarrow> txobj"
  validate_transaction_object :: "txobj \<Rightarrow> bool \<times> string list \<times> string list"

text \<open>
  The effects of handling a message, in the order they happen:
  \<^item> \<open>Routed d msg\<close>: \<open>self.networking.domains[d]['user'].send_message_to_user(msg)\<close>;
  \<^item> \<open>Absorbed d msg\<close>: \<open>send_message_to_user(msg)\<close> on the
    \<open>UserMessageRoutingDummy\<close> made for the unregistered domain \<open>d\<close>;
  \<^item> \<open>Direct msg\<close>: \<open>user_message_routing.direct_send_to_user(socket, msg)\<close>;
  \<^item> \<open>Broadcast d payload\<close>: \<open>self.networking.broadcast_notification_message\<close>.
  A message is recorded as it is when the call is made.
\<close>

datatype send =
    Routed string message
  | Absorbed string message
  | Direct message
  | Broadcast string string

text \<open>
  The message codec gives each key a value of the key's type: \<open>bytes\<close> for
  identifiers and transaction data, \<open>int\<close> for counts. The functions of the core are
  typed accordingly (\<open>None\<close> is \<open>None\<close>), and the dispatcher converts. A value of
  another type is outside the embedding: the conversion raises \<open>TypeError\<close> where the
  source would hand the value on to a collaborator.
\<close>

definition bytes_arg :: "pyval \<Rightarrow> error + string option" where
  "bytes_arg v = (case v of VNone \<Rightarrow> Inr None | VBytes b \<Rightarrow> Inr (Some b) | _ \<Rightarrow> Inl TypeError)"

definition bytes_get :: "message \<Rightarrow> key_type \<Rightarrow> error + string option" where
  "bytes_get dat k = (case map_of dat k of None \<Rightarrow> Inr None | Some v \<Rightarrow> bytes_arg v)"

definition int_arg :: "pyval \<Rightarrow> error + int" where
  "int_arg v =
     (case v of VInt i \<Rightarrow> Inr i | VBool b \<Rightarrow> Inr (if b then 1 else 0) | _ \<Rightarrow> Inl TypeError)"

text \<open>
  \<open>_traverse_transactions\<close> reads its \<open>direction\<close> only in \<open>direction == 1\<close>
  (line 665), which raises for no value: a number is compared, \<open>True\<close> equals 1, and
  every other value differs from 1 and is given as 0.
\<close>

definition direction_arg :: "pyval \<Rightarrow> int" where
  "direction_arg v = (case v of VInt i \<Rightarrow> i | VBool b \<Rightarrow> (if b then 1 else 0) | _ \<Rightarrow> 0)"

definition opt_bytes :: "string option \<Rightarrow> pyval" where
  "opt_bytes x = (case x of None \<Rightarrow> VNone | Some b \<Rightarrow> VBytes b)"

text \<open>\<open>dat.get(key, default)\<close>.\<close>

definition get_default :: "message \<Rightarrow> key_type \<Rightarrow> pyval \<Rightarrow> pyval" where
  "get_default dat k d = (case map_of dat k of None \<Rightarrow> d | Some v \<Rightarrow> v)"

text \<open>\<open>d.update(e)\<close> for dictionaries.\<close>

definition dict_update :: "message \<Rightarrow> message \<Rightarrow> message" where
  "dict_update d e = foldl (\<lambda>m kv. AList.update (fst kv) (snd kv) m) d e"

text \<open>Lines 54 to 71.\<close>

definition make_message_structure :: "string option \<Rightarrow> msg_type \<Rightarrow> pyval \<Rightarrow> pyval \<Rightarrow> message" where
  "make_message_structure domain_id cmd dstid qid =
     [(K_domain_id, opt_bytes domain_id), (K_command, VCmd cmd),
      (K_destination_user_id, dstid), (K_query_id, qid), (K_status, VStatus ESUCCESS)]"

section \<open>Search results: \<open>_create_search_result\<close> and its callers\<close>

text \<open>
  The truth value Python gives a tuple in a condition is \<open>len(t) != 0\<close>. Line 81 tests
  the value \<open>bbclib.validate_transaction_object(txobj)\<close> itself, the triple that line
  475 unpacks.
\<close>

definition tuple3_len :: "'a \<times> 'b \<times> 'c \<Rightarrow> nat" where
  "tuple3_len t = 3"

definition truth_value :: "'a \<times> 'b \<times> 'c \<Rightarrow> bool" where
  "truth_value t = (tuple3_len t \<noteq> 0)"

text \<open>
  \<open>response_info.setdefault(key, list()).append(x)\<close>. The dictionary of
  \<open>_create_search_result\<close> starts empty and holds lists only.
\<close>

definition setdefault_append :: "key_type \<Rightarrow> pyval \<Rightarrow> message \<Rightarrow> message" where
  "setdefault_append k x d =
     (case map_of d k of
        Some (VList xs) \<Rightarrow> AList.update k (VList (xs @ [x])) d
      | _ \<Rightarrow> AList.update k (VList [x]) d)"

text \<open>Lines 77 to 84: the loop over \<open>txobj_dict.items()\<close>.\<close>

fun search_result_loop :: "(txobj \<Rightarrow> bool \<times> string list \<times> string list) \<Rightarrow> txdict \<Rightarrow> message \<Rightarrow> message" where
  "search_result_loop validate [] response_info = response_info"
| "search_result_loop validate ((txid, txobj) # rest) response_info =
     (if txid \<noteq> transaction_id txobj
      then search_result_loop validate rest
             (setdefault_append K_compromised_transactions (VBytes (transaction_data txobj)) response_info)
      else if truth_value (validate txobj)
      then search_result_loop validate rest
             (setdefault_append K_transactions (VBytes (transaction_data txobj)) response_info)
      else search_result_loop validate rest
             (setdefault_append K_compromised_transactions (VBytes (transaction_data txobj)) response_info))"

definition create_search_result :: "core \<Rightarrow> txdict \<Rightarrow> message" where
  "create_search_result c txobj_dict =
     search_result_loop (validate_transaction_object c) txobj_dict []"

text \<open>\<open>self.networking.domains[domain_id]\<close>, for a \<open>domain_id\<close> that is not \<open>None\<close>.\<close>

definition domains_get :: "core \<Rightarrow> string \<Rightarrow> error + domain" where
  "domains_get c d = (case map_of (domains c) d of None \<Rightarrow> Inl KeyError | Some x \<Rightarrow> Inr x)"

text \<open>\<open>response_info[key][0]\<close>.\<close>

definition first_of :: "message \<Rightarrow> key_type \<Rightarrow> error + pyval" where
  "first_of d k =
     (case map_of d k of
        None \<Rightarrow> Inl KeyError
      | Some (VList []) \<Rightarrow> Inl IndexError
      | Some (VList (x # xs)) \<Rightarrow> Inr x
      | Some _ \<Rightarrow> Inl TypeError)"

text \<open>Lines 557 to 587.\<close>

definition search_transaction_by_txid :: "core \<Rightarrow> string option \<Rightarrow> string option \<Rightarrow> error + message option" where
  "search_transaction_by_txid c domain_id txid =
     (case domain_id of
        None \<Rightarrow> Inr None
      | Some d \<Rightarrow>
          (case txid of
             None \<Rightarrow> Inr None
           | Some t \<Rightarrow>
               (case domains_get c d of
                  Inl e \<Rightarrow> Inl e
                | Inr dm \<Rightarrow>
                    (case search_transaction (domain_data dm) t of
                       None \<Rightarrow> Inr None
                     | Some ret_txobj \<Rightarrow>
                         if ret_txobj = [] then Inr None
                         else
                           let response_info =
                                 AList.update K_transaction_id (VBytes t)
                                   (create_search_result c ret_txobj)
                           in if map_of response_info K_transactions \<noteq> None
                              then (case first_of response_info K_transactions of
                                      Inl e \<Rightarrow> Inl e
                                    | Inr x \<Rightarrow>
                                        Inr (Some (AList.delete K_transactions
                                          (AList.update K_transaction_data x response_info))))
                              else if map_of response_info K_compromised_transactions \<noteq> None
                              then (case first_of response_info K_compromised_transactions of
                                      Inl e \<Rightarrow> Inl e
                                    | Inr x \<Rightarrow>
                                        Inr (Some (AList.delete K_compromised_transactions
                                          (AList.update K_compromised_transaction_data x response_info))))
                              else Inr (Some response_info)))))"

text \<open>Lines 589 to 615.\<close>

definition search_transaction_with_condition ::
  "core \<Rightarrow> string option \<Rightarrow> pyval \<Rightarrow> pyval \<Rightarrow> pyval \<Rightarrow> pyval \<Rightarrow> pyval \<Rightarrow> error + message option" where
  "search_transaction_with_condition c domain_id asset_group_id asset_id user_id direction count =
     (case domain_id of
        None \<Rightarrow> Inr None
      | Some d \<Rightarrow>
          (case domains_get c d of
             Inl e \<Rightarrow> Inl e
           | Inr dm \<Rightarrow>
               (case search_transaction_cond (domain_data dm) asset_group_id asset_id user_id direction count of
                  None \<Rightarrow> Inr None
                | Some ret_txobj \<Rightarrow>
                    if ret_txobj = [] then Inr None
                    else Inr (Some (create_search_result c ret_txobj)))))"

text \<open>Lines 637 to 717, around the loop embedded above.\<close>

definition traverse_transactions ::
  "core \<Rightarrow> string option \<Rightarrow> string option \<Rightarrow> string option \<Rightarrow> string option \<Rightarrow> int \<Rightarrow> int
     \<Rightarrow> error + (bool \<times> string list list) option" where
  "traverse_transactions c domain_id txid asset_group_id user_id direction hop_count =
     (case domain_id of
        None \<Rightarrow> Inr None
      | Some d \<Rightarrow>
          (case txid of
             None \<Rightarrow> Inr None
           | Some t \<Rightarrow>
               (case domains_get c d of
                  Inl e \<Rightarrow> Inl e
                | Inr dm \<Rightarrow>
                    let st = traverse_final (domain_data dm) t asset_group_id user_id direction hop_count
                    in (case raised st of
                          Some e \<Rightarrow> Inl e
                        | None \<Rightarrow> Inr (Some (include_all_flag st, txtree st))))))"

section \<open>Transaction admission\<close>

text \<open>Lines 460 to 480.\<close>

definition validate_transaction :: "core \<Rightarrow> string \<Rightarrow> txobj option" where
  "validate_transaction c txdata =
     (case deserialize c txdata of
        None \<Rightarrow> None
      | Some txobj0 \<Rightarrow>
          let txobj = digest c txobj0
          in (case validate_transaction_object c txobj of
                (flag, valid_asset, invalid_asset) \<Rightarrow> if flag then Some txobj else None))"

text \<open>\<open>int(n).to_bytes(1, 'big')\<close>: one byte, or \<open>OverflowError\<close>.\<close>

definition to_bytes1 :: "nat \<Rightarrow> error + string" where
  "to_bytes1 n = (if n < 256 then Inr [char_of n] else Inl OverflowError)"

text \<open>Lines 514 to 530: the notification frame and its broadcast.\<close>

definition send_inserted_notification :: "string \<Rightarrow> string list \<Rightarrow> string \<Rightarrow> error + send" where
  "send_inserted_notification domain_id asset_group_ids txid =
     (case to_bytes1 (length txid) of
        Inl e \<Rightarrow> Inl e
      | Inr b1 \<Rightarrow>
          (case to_bytes1 (length domain_id) of
             Inl e \<Rightarrow> Inl e
           | Inr b2 \<Rightarrow>
               (case to_bytes1 (length asset_group_ids) of
                  Inl e \<Rightarrow> Inl e
                | Inr b3 \<Rightarrow>
                    Inr (Broadcast domain_id
                           (b1 @ b2 @ txid @ domain_id @ b3 @ concat asset_group_ids)))))"

text \<open>
  The result of \<open>insert_transaction\<close>: a \<open>str\<close> or a \<open>dict\<close>, which the caller tells
  apart with \<open>isinstance(ret, str)\<close>.
\<close>

datatype insert_result = Reason string | Inserted message

text \<open>
  Lines 482 to 512. The \<open>KeyError\<close> is that of \<open>self.networking.domains[domain_id]\<close>
  among the arguments of the log call of lines 501 and 502, the first place that reads
  the domain's entry.
\<close>

definition insert_transaction :: "core \<Rightarrow> string option \<Rightarrow> string \<Rightarrow> send list \<times> (error + insert_result)" where
  "insert_transaction c domain_id txdata =
     (case domain_id of
        None \<Rightarrow> ([], Inr (Reason ''Set up the domain, first!''))
      | Some d \<Rightarrow>
          (case validate_transaction c txdata of
             None \<Rightarrow> ([], Inr (Reason ''Bad transaction format''))
           | Some txobj \<Rightarrow>
               (case domains_get c d of
                  Inl e \<Rightarrow> ([], Inl e)
                | Inr dm \<Rightarrow>
                    (case dh_insert_transaction (domain_data dm) txdata txobj of
                       None \<Rightarrow> ([], Inr (Reason ''Failed to insert a transaction into the ledger''))
                     | Some asset_group_ids \<Rightarrow>
                         (case send_inserted_notification d asset_group_ids (transaction_id txobj) of
                            Inl e \<Rightarrow> ([], Inl e)
                          | Inr s \<Rightarrow>
                              ([s], Inr (Inserted [(K_transaction_id, VBytes (transaction_id txobj))])))))))"

section \<open>Signature gathering\<close>

text \<open>Iterating over a value with \<open>for\<close>.\<close>

definition py_iter :: "pyval \<Rightarrow> error + pyval list" where
  "py_iter v =
     (case v of
        VList xs \<Rightarrow> Inr xs
      | VBytes b \<Rightarrow> Inr (map (\<lambda>ch. VInt (of_char ch)) b)
      | VStr s \<Rightarrow> Inr (map (\<lambda>ch. VStr [ch]) s)
      | _ \<Rightarrow> Inl TypeError)"

text \<open>
  Lines 545 to 554: the loop over the destinations. \<open>msg\<close> is the one dictionary that
  every iteration updates and sends.
\<close>

fun gather_loop :: "string \<Rightarrow> message \<Rightarrow> pyval \<Rightarrow> pyval list \<Rightarrow> message \<Rightarrow> send list \<times> (error + bool)" where
  "gather_loop d dat src [] msg = ([], Inr True)"
| "gather_loop d dat src (dst # rest) msg =
     (if dst = src then gather_loop d dat src rest msg
      else
        let msg1 = AList.update K_destination_user_id dst msg;
            msg2 = (case map_of dat K_hint of None \<Rightarrow> msg1 | Some h \<Rightarrow> AList.update K_hint h msg1)
        in (case map_of dat K_transaction_data of
              None \<Rightarrow> ([], Inl KeyError)
            | Some txdata \<Rightarrow>
                let msg3 = AList.update K_transaction_data txdata msg2;
                    msg4 = (case map_of dat K_transactions of
                              None \<Rightarrow> msg3 | Some ts \<Rightarrow> AList.update K_transactions ts msg3)
                in (case gather_loop d dat src rest msg4 of
                      (sends, r) \<Rightarrow> (Routed d msg4 # sends, r))))"

text \<open>Lines 532 to 555. Indexing the domains with \<open>None\<close> raises \<open>KeyError\<close>.\<close>

definition distribute_transaction_to_gather_signatures ::
  "core \<Rightarrow> string option \<Rightarrow> message \<Rightarrow> send list \<times> (error + bool)" where
  "distribute_transaction_to_gather_signatures c domain_id dat =
     (case map_of dat K_destination_user_ids of
        None \<Rightarrow> ([], Inl KeyError)
      | Some destinations \<Rightarrow>
          (case map_of dat K_query_id of
             None \<Rightarrow> ([], Inl KeyError)
           | Some qid \<Rightarrow>
               (case map_of dat K_source_user_id of
                  None \<Rightarrow> ([], Inl KeyError)
                | Some src \<Rightarrow>
                    let msg = AList.update K_source_user_id src
                                (make_message_structure domain_id REQUEST_SIGNATURE VNone qid)
                    in (case domain_id of
                          None \<Rightarrow> ([], Inl KeyError)
                        | Some d \<Rightarrow>
                            (case domains_get c d of
                               Inl e \<Rightarrow> ([], Inl e)
                             | Inr dm \<Rightarrow>
                                 (case py_iter destinations of
                                    Inl e \<Rightarrow> ([], Inl e)
                                  | Inr ds \<Rightarrow> gather_loop d dat src ds msg))))))"

section \<open>The dispatcher\<close>

text \<open>
  A value as a key of \<open>self.networking.domains\<close>, whose keys are \<open>bytes\<close>: a
  list cannot be hashed, and no domain is registered under any other value.
\<close>

definition domain_key :: "pyval \<Rightarrow> error + string option" where
  "domain_key v =
     (case v of VBytes d \<Rightarrow> Inr (Some d) | VList xs \<Rightarrow> Inl TypeError | _ \<Rightarrow> Inr None)"

text \<open>
  Lines 127 to 144. The result is the message as the call leaves it (the caller's
  dictionary is updated in place), the effects, and the returned flag or the exception.
\<close>

definition error_reply :: "core \<Rightarrow> message \<Rightarrow> status_code \<Rightarrow> string \<Rightarrow> message \<times> send list \<times> (error + bool)" where
  "error_reply c msg err_code txt =
     (let msg1 = AList.update K_reason (VStr txt) (AList.update K_status (VStatus err_code) msg)
      in case map_of msg1 K_domain_id of
           None \<Rightarrow> (msg1, [], Inl KeyError)
         | Some v \<Rightarrow>
             (case domain_key v of
                Inl e \<Rightarrow> (msg1, [], Inl e)
              | Inr None \<Rightarrow> (msg1, [], Inr False)
              | Inr (Some d) \<Rightarrow>
                  if map_of (domains c) d \<noteq> None then (msg1, [Routed d msg1], Inr True)
                  else (msg1, [], Inr False)))"

text \<open>
  The pattern \<open>if not self._error_reply(...): direct_send_to_user(socket, retmsg)\<close> of
  the handlers.
\<close>

definition error_reply_or_direct :: "core \<Rightarrow> message \<Rightarrow> status_code \<Rightarrow> string \<Rightarrow> send list \<times> (error + unit)" where
  "error_reply_or_direct c retmsg err_code txt =
     (case error_reply c retmsg err_code txt of
        (m, s, Inl e) \<Rightarrow> (s, Inl e)
      | (m, s, Inr True) \<Rightarrow> (s, Inr ())
      | (m, s, Inr False) \<Rightarrow> (s @ [Direct m], Inr ()))"

text \<open>Lines 181 to 199. The argument is a list of keys or one key.\<close>

datatype param = PList "key_type list" | PKey key_type

fun param_check_list :: "core \<Rightarrow> key_type list \<Rightarrow> message \<Rightarrow> send list \<times> (error + bool)" where
  "param_check_list c [] dat = ([], Inr True)"
| "param_check_list c (p # ps) dat =
     (if map_of dat p = None
      then (case error_reply c dat EINVALID_COMMAND ''lack of mandatory params'' of
              (m, s, Inl e) \<Rightarrow> (s, Inl e)
            | (m, s, Inr b) \<Rightarrow> (s, Inr False))
      else param_check_list c ps dat)"

definition param_check :: "core \<Rightarrow> param \<Rightarrow> message \<Rightarrow> send list \<times> (error + bool)" where
  "param_check c prm dat =
     (case prm of
        PList ps \<Rightarrow> param_check_list c ps dat
      | PKey p \<Rightarrow>
          if map_of dat p = None
          then (case error_reply c dat EINVALID_COMMAND ''lack of mandatory params'' of
                  (m, s, Inl e) \<Rightarrow> (s, Inl e)
                | (m, s, Inr b) \<Rightarrow> (s, Inr False))
          else ([], Inr True))"

text \<open>
  The variable \<open>umr\<close> of \<open>_process\<close> (lines 218 to 224): \<open>None\<close>, the routing table
  of a registered domain, or the dummy for an unregistered one.
\<close>

datatype umr = UmrNone | UmrReal string | UmrDummy string

definition umr_of :: "core \<Rightarrow> string option \<Rightarrow> umr" where
  "umr_of c domain_id =
     (case domain_id of
        None \<Rightarrow> UmrNone
      | Some d \<Rightarrow> if map_of (domains c) d \<noteq> None then UmrReal d else UmrDummy d)"

text \<open>\<open>umr.send_message_to_user(msg)\<close>; on \<open>None\<close> the attribute access raises.\<close>

definition umr_send :: "umr \<Rightarrow> message \<Rightarrow> send list \<times> (error + unit)" where
  "umr_send u msg =
     (case u of
        UmrNone \<Rightarrow> ([], Inl AttributeError)
      | UmrReal d \<Rightarrow> ([Routed d msg], Inr ())
      | UmrDummy d \<Rightarrow> ([Absorbed d msg], Inr ()))"

text \<open>\<open>dat[key]\<close>.\<close>

definition item :: "message \<Rightarrow> key_type \<Rightarrow> error + pyval" where
  "item dat k = (case map_of dat k of None \<Rightarrow> Inl KeyError | Some v \<Rightarrow> Inr v)"

text \<open>
  The result of \<open>_process\<close>: the effects, then the exception or the returned pair of
  the disconnection flag and the new user info.
\<close>

type_synonym process_result = "send list \<times> (error + bool \<times> (string \<times> pyval) option)"

definition finish :: "send list \<times> (error + unit) \<Rightarrow> process_result" where
  "finish r = (case r of (s, Inl e) \<Rightarrow> (s, Inl e) | (s, Inr u) \<Rightarrow> (s, Inr (False, None)))"

text \<open>
  Sequencing: an expression that raises ends the handler with the exception, without
  effects; otherwise the handler goes on with the value.
\<close>

definition on_value :: "error + 'a \<Rightarrow> ('a \<Rightarrow> send list \<times> (error + 'b)) \<Rightarrow> send list \<times> (error + 'b)" where
  "on_value x f = (case x of Inl e \<Rightarrow> ([], Inl e) | Inr v \<Rightarrow> f v)"

text \<open>Effects first, then the rest of the handler.\<close>

definition after :: "send list \<Rightarrow> send list \<times> 'r \<Rightarrow> send list \<times> 'r" where
  "after s r = (s @ fst r, snd r)"

text \<open>Lines 228 to 241: \<open>REQUEST_SEARCH_TRANSACTION\<close>, once the parameters are checked.\<close>

definition process_search_transaction :: "core \<Rightarrow> umr \<Rightarrow> string option \<Rightarrow> message \<Rightarrow> process_result" where
  "process_search_transaction c u domain_id dat =
     on_value (item dat K_source_user_id) (\<lambda>src.
     on_value (item dat K_query_id) (\<lambda>qid.
     on_value (bytes_get dat K_transaction_id) (\<lambda>txid.
     on_value (search_transaction_by_txid c domain_id txid) (\<lambda>txinfo.
       let retmsg = make_message_structure domain_id RESPONSE_SEARCH_TRANSACTION src qid
       in (case txinfo of
             None \<Rightarrow> finish (error_reply_or_direct c retmsg ENOTRANSACTION ''Cannot find transaction'')
           | Some info \<Rightarrow>
               finish (umr_send u (dict_update
                 (if map_of info K_compromised_transaction_data \<noteq> None
                  then AList.update K_status (VStatus EBADTRANSACTION) retmsg else retmsg)
                 info)))))))"

text \<open>Lines 247 to 260: \<open>REQUEST_SEARCH_WITH_CONDITIONS\<close>, once the parameters are checked.\<close>

definition process_search_with_conditions :: "core \<Rightarrow> umr \<Rightarrow> string option \<Rightarrow> message \<Rightarrow> process_result" where
  "process_search_with_conditions c u domain_id dat =
     on_value (item dat K_source_user_id) (\<lambda>src.
     on_value (item dat K_query_id) (\<lambda>qid.
     on_value (search_transaction_with_condition c domain_id
                 (get_default dat K_asset_group_id VNone) (get_default dat K_asset_id VNone)
                 (get_default dat K_user_id VNone) (get_default dat K_direction (VInt 0))
                 (get_default dat K_count (VInt 1))) (\<lambda>txinfo.
       let retmsg = make_message_structure domain_id RESPONSE_SEARCH_WITH_CONDITIONS src qid
       in (case txinfo of
             None \<Rightarrow> finish (error_reply_or_direct c retmsg ENOTRANSACTION ''Cannot find transaction'')
           | Some info \<Rightarrow>
               if map_of info K_transactions = None
               then finish (error_reply_or_direct c retmsg ENOTRANSACTION ''Cannot find transaction'')
               else finish (umr_send u (dict_update retmsg info))))))"

text \<open>
  Lines 279 to 294: \<open>REQUEST_TRAVERSE_TRANSACTIONS\<close>, once the parameters are checked.
  Unpacking a returned \<open>None\<close> at line 284 raises \<open>TypeError\<close>.
\<close>

definition unpack_pair :: "'a option \<Rightarrow> error + 'a" where
  "unpack_pair r = (case r of None \<Rightarrow> Inl TypeError | Some p \<Rightarrow> Inr p)"

definition process_traverse_transactions :: "core \<Rightarrow> umr \<Rightarrow> string option \<Rightarrow> message \<Rightarrow> process_result" where
  "process_traverse_transactions c u domain_id dat =
     on_value (item dat K_source_user_id) (\<lambda>src.
     on_value (item dat K_query_id) (\<lambda>qid.
     on_value (item dat K_transaction_id) (\<lambda>tv.
     on_value (bytes_arg tv) (\<lambda>txid.
     on_value (bytes_get dat K_asset_group_id) (\<lambda>asset_group_id.
     on_value (bytes_get dat K_user_id) (\<lambda>user_id.
     on_value (item dat K_direction) (\<lambda>dv.
     on_value (item dat K_hop_count) (\<lambda>hv.
     on_value (int_arg hv) (\<lambda>hop_count.
     on_value (traverse_transactions c domain_id txid asset_group_id user_id
                 (direction_arg dv) hop_count) (\<lambda>r.
     on_value (unpack_pair r) (\<lambda>(all_included, tree).
       let retmsg = AList.update K_transaction_id tv
                      (make_message_structure domain_id RESPONSE_TRAVERSE_TRANSACTIONS src qid)
       in if length tree = 0
          then finish (error_reply_or_direct c retmsg ENOTRANSACTION ''Cannot find transaction'')
          else finish (umr_send u
                 (AList.update K_all_included (VBool all_included)
                    (AList.update K_transaction_tree
                       (VList (map (\<lambda>l. VList (map VBytes l)) tree)) retmsg))))))))))))))"

text \<open>Lines 300 to 304: \<open>REQUEST_GATHER_SIGNATURE\<close>, once the parameters are checked.\<close>

definition process_gather_signature :: "core \<Rightarrow> umr \<Rightarrow> string option \<Rightarrow> message \<Rightarrow> process_result" where
  "process_gather_signature c u domain_id dat =
     (case distribute_transaction_to_gather_signatures c domain_id dat of
        (s, Inl e) \<Rightarrow> (s, Inl e)
      | (s, Inr True) \<Rightarrow> (s, Inr (False, None))
      | (s, Inr False) \<Rightarrow>
          after s
            (on_value (item dat K_source_user_id) (\<lambda>src.
             on_value (item dat K_query_id) (\<lambda>qid.
               finish (error_reply_or_direct c
                 (make_message_structure domain_id RESPONSE_GATHER_SIGNATURE src qid)
                 EINVALID_COMMAND ''Fail to forward transaction'')))))"

text \<open>Lines 310 to 319: \<open>REQUEST_INSERT\<close>, once the parameters are checked.\<close>

definition bytes_value :: "pyval \<Rightarrow> error + string" where
  "bytes_value v = (case v of VBytes b \<Rightarrow> Inr b | _ \<Rightarrow> Inl TypeError)"

definition process_insert :: "core \<Rightarrow> umr \<Rightarrow> string option \<Rightarrow> message \<Rightarrow> process_result" where
  "process_insert c u domain_id dat =
     on_value (item dat K_transaction_data) (\<lambda>dv.
     on_value (bytes_value dv) (\<lambda>txdata.
     on_value (item dat K_source_user_id) (\<lambda>src.
     on_value (item dat K_query_id) (\<lambda>qid.
       let retmsg = make_message_structure domain_id RESPONSE_INSERT src qid
       in (case insert_transaction c domain_id txdata of
             (s, Inl e) \<Rightarrow> (s, Inl e)
           | (s, Inr (Reason txt)) \<Rightarrow>
               after s (finish (error_reply_or_direct c retmsg EINVALID_COMMAND txt))
           | (s, Inr (Inserted ret)) \<Rightarrow>
               after s (finish (umr_send u (dict_update retmsg ret))))))))"

text \<open>
  The handler of a command after its parameter check, or \<open>NotEmbedded\<close> for a command
  whose handler is not embedded here.
\<close>

definition checked :: "send list \<times> (error + bool) \<Rightarrow> process_result \<Rightarrow> process_result" where
  "checked chk body =
     (case chk of
        (s, Inl e) \<Rightarrow> (s, Inl e)
      | (s, Inr False) \<Rightarrow> (s, Inr (False, None))
      | (s, Inr True) \<Rightarrow> after s body)"

text \<open>
  Lines 201 to 458, for the search, traversal, signature-gathering and insertion
  requests. The commands that change the routing table or the set of domains, or that
  read the configuration, are not embedded: the model answers \<open>NotEmbedded\<close> for them.
  A value under \<open>KeyType.command\<close> that is no command reaches the final \<open>else\<close>.
\<close>

definition process :: "core \<Rightarrow> message \<Rightarrow> process_result" where
  "process c dat =
     checked (param_check c (PList [K_command, K_source_user_id]) dat)
       (on_value (bytes_get dat K_domain_id) (\<lambda>domain_id.
        on_value (item dat K_command) (\<lambda>cmd.
          let u = umr_of c domain_id
          in if cmd = VCmd REQUEST_SEARCH_TRANSACTION then
               checked (param_check c (PList [K_domain_id, K_transaction_id]) dat)
                 (process_search_transaction c u domain_id dat)
             else if cmd = VCmd REQUEST_SEARCH_WITH_CONDITIONS then
               checked (param_check c (PList [K_domain_id]) dat)
                 (process_search_with_conditions c u domain_id dat)
             else if cmd = VCmd REQUEST_TRAVERSE_TRANSACTIONS then
               checked (param_check c
                          (PList [K_domain_id, K_transaction_id, K_direction, K_hop_count]) dat)
                 (process_traverse_transactions c u domain_id dat)
             else if cmd = VCmd REQUEST_GATHER_SIGNATURE then
               checked (param_check c (PList [K_domain_id, K_transaction_data]) dat)
                 (process_gather_signature c u domain_id dat)
             else if cmd = VCmd REQUEST_INSERT then
               checked (param_check c (PList [K_domain_id, K_transaction_data]) dat)
                 (process_insert c u domain_id dat)
             else (case cmd of
                     VCmd other \<Rightarrow> ([], Inl NotEmbedded)
                   | _ \<Rightarrow> ([], Inr (False, None))))))"

section \<open>The connection loop\<close>

text \<open>
  Lines 158 to 166: the inner loop of \<open>_handler\<close> over the messages that one
  \<open>recv\<close> completes. It ends when the parser has no message left, when \<open>_process\<close>
  reports a disconnection, or with the exception that \<open>_process\<close> raises.
\<close>

fun message_loop :: "core \<Rightarrow> message list \<Rightarrow> (string \<times> pyval) option
    \<Rightarrow> send list \<times> (error + (string \<times> pyval) option)" where
  "message_loop c [] user_info = ([], Inr user_info)"
| "message_loop c (msg # rest) user_info =
     (case process c msg of
        (s, Inl e) \<Rightarrow> (s, Inl e)
      | (s, Inr (disconnection, new_info)) \<Rightarrow>
          if disconnection then (s, Inr user_info)
          else after s (message_loop c rest (if new_info \<noteq> None then new_info else user_info)))"

text \<open>
  Lines 151 to 169: the outer loop of \<open>_handler\<close>. The input is the sequence of
  non-empty reads, each given as the messages it completes, followed by the empty read
  of a closed peer. An exception leaves the loop through the \<open>except\<close> clause; either
  way the socket is closed afterwards (lines 170 to 179). On a command whose handler is
  not embedded the model ends with \<open>Excepted NotEmbedded\<close>, which says nothing about
  the source.
\<close>

datatype loop_exit = PeerClosed | Excepted error

fun handler :: "core \<Rightarrow> message list list \<Rightarrow> (string \<times> pyval) option \<Rightarrow> send list \<times> loop_exit" where
  "handler c [] user_info = ([], PeerClosed)"
| "handler c (msgs # reads) user_info =
     (case message_loop c msgs user_info of
        (s, Inl e) \<Rightarrow> (s, Excepted e)
      | (s, Inr user_info1) \<Rightarrow> after s (handler c reads user_info1))"

section \<open>Example environments\<close>

text \<open>
  A storage handle built from tables, for the examples below: the stored transactions
  (id and serialized data), the asset records per transaction id, the topology rows
  \<open>(row, base, point_to)\<close> and the answer to a search with conditions. A search towards
  the past selects the rows whose base is the transaction, a search towards the future
  those that point to it.
\<close>

definition store_of :: "(string \<times> string) list \<Rightarrow> (string \<times> (string \<times> string \<times> string) list) list
    \<Rightarrow> (nat \<times> string \<times> string) list \<Rightarrow> txdict option \<Rightarrow> data_handler" where
  "store_of txs assets topo found =
     \<lparr>search_transaction =
        (\<lambda>t. case map_of txs t of
               None \<Rightarrow> None
             | Some d \<Rightarrow> Some [(t, \<lparr>transaction_id = t, transaction_data = d\<rparr>)]),
      search_transaction_cond = (\<lambda>asset_group_id asset_id user_id direction count. found),
      get_asset_info =
        (\<lambda>obj. case map_of assets (transaction_id obj) of None \<Rightarrow> [] | Some a \<Rightarrow> a),
      search_transaction_topology =
        (\<lambda>t past. Some (filter (\<lambda>row. (if past then fst (snd row) else snd (snd row)) = t) topo)),
      dh_insert_transaction = (\<lambda>txdata obj. Some [''g1''])\<rparr>"

text \<open>
  A core with one registered domain \<open>''d1''\<close> over a given storage handle. Its
  deserializer accepts every non-empty byte string; the validation answer is a parameter.
\<close>

definition core_of :: "data_handler \<Rightarrow> (txobj \<Rightarrow> bool \<times> string list \<times> string list) \<Rightarrow> core" where
  "core_of dh validate =
     \<lparr>domains = [(''d1'', \<lparr>domain_data = dh, domain_name = ''n1''\<rparr>)],
      deserialize =
        (\<lambda>raw. if raw = [] then None
               else Some \<lparr>transaction_id = CHR ''#'' # raw, transaction_data = raw\<rparr>),
      digest = (\<lambda>obj. obj),
      validate_transaction_object = validate\<rparr>"

definition accept_all :: "txobj \<Rightarrow> bool \<times> string list \<times> string list" where
  "accept_all obj = (True, [], [])"

definition reject_all :: "txobj \<Rightarrow> bool \<times> string list \<times> string list" where
  "reject_all obj = (False, [], [])"

text \<open>Two stored transactions; \<open>A\<close> refers to \<open>B\<close>, and only \<open>B\<close> has an asset record.\<close>

definition chain_store :: data_handler where
  "chain_store =
     store_of [(''A'', ''dA''), (''B'', ''dB'')] [(''B'', [(''g1'', ''a1'', ''u1'')])]
       [(1, ''A'', ''B'')] None"

text \<open>
  Eleven stored transactions: \<open>A\<close> refers to \<open>B1\<close> to \<open>B5\<close>, and each of these refers
  to \<open>C1\<close> to \<open>C5\<close>.
\<close>

definition fan_bs :: "string list" where
  "fan_bs = [''B1'', ''B2'', ''B3'', ''B4'', ''B5'']"

definition fan_cs :: "string list" where
  "fan_cs = [''C1'', ''C2'', ''C3'', ''C4'', ''C5'']"

definition fan_store :: data_handler where
  "fan_store =
     store_of (map (\<lambda>t. (t, CHR ''d'' # t)) (''A'' # fan_bs @ fan_cs)) []
       (map (\<lambda>b. (0, ''A'', b)) fan_bs @ concat (map (\<lambda>b. map (\<lambda>x. (0, b, x)) fan_cs) fan_bs))
       None"

text \<open>A storage whose search with conditions finds one object stored under another id.\<close>

definition mismatch_store :: data_handler where
  "mismatch_store =
     store_of [] [] [] (Some [(''t1'', \<lparr>transaction_id = ''t2'', transaction_data = ''x1''\<rparr>)])"

text \<open>A storage whose search with conditions finds one object under its own id.\<close>

definition match_store :: data_handler where
  "match_store =
     store_of [] [] [] (Some [(''t1'', \<lparr>transaction_id = ''t1'', transaction_data = ''x1''\<rparr>)])"

text \<open>Two stored transactions that refer to each other.\<close>

definition cycle_store :: data_handler where
  "cycle_store =
     store_of [(''A'', ''dA''), (''B'', ''dB'')] [] [(1, ''A'', ''B''), (2, ''B'', ''A'')] None"

section \<open>Predicates used in the statements\<close>

text \<open>The counter agrees with the dictionary of visited ids, which is the list of lookups.\<close>

definition counted :: "trav \<Rightarrow> bool" where
  "counted st = (tx_count st = length (txids st) \<and> distinct (txids st) \<and> searched st = txids st)"

text \<open>What a sign request for one destination holds.\<close>

definition sign_request :: "string \<Rightarrow> message \<Rightarrow> message \<Rightarrow> pyval \<Rightarrow> bool" where
  "sign_request d dat msg dst =
     (map_of msg K_command = Some (VCmd REQUEST_SIGNATURE)
      \<and> map_of msg K_domain_id = Some (VBytes d)
      \<and> map_of msg K_destination_user_id = Some dst
      \<and> map_of msg K_source_user_id = map_of dat K_source_user_id
      \<and> map_of msg K_query_id = map_of dat K_query_id
      \<and> map_of msg K_transaction_data = map_of dat K_transaction_data
      \<and> map_of msg K_hint = map_of dat K_hint
      \<and> map_of msg K_transactions = map_of dat K_transactions)"

text \<open>The message of the loop before a destination is written into it.\<close>

definition sign_request_base :: "string \<Rightarrow> message \<Rightarrow> message \<Rightarrow> bool" where
  "sign_request_base d dat msg =
     (map_of msg K_command = Some (VCmd REQUEST_SIGNATURE)
      \<and> map_of msg K_domain_id = Some (VBytes d)
      \<and> map_of msg K_source_user_id = map_of dat K_source_user_id
      \<and> map_of msg K_query_id = map_of dat K_query_id
      \<and> (map_of msg K_hint = None \<or> map_of msg K_hint = map_of dat K_hint)
      \<and> (map_of msg K_transactions = None \<or> map_of msg K_transactions = map_of dat K_transactions))"

text \<open>
  The storage as a graph: the topology rows of a transaction in the direction of the
  traversal, the ids they name, and the object and data stored under an id (what
  \<open>ret_txobj[txid]\<close> yields when the search finds something).
\<close>

definition rows :: "data_handler \<Rightarrow> bool \<Rightarrow> string \<Rightarrow> (nat \<times> string \<times> string) list" where
  "rows dh past t = (case search_transaction_topology dh t past of None \<Rightarrow> [] | Some r \<Rightarrow> r)"

definition neighbours :: "data_handler \<Rightarrow> bool \<Rightarrow> string \<Rightarrow> string set" where
  "neighbours dh past t = next_txid past ` set (rows dh past t)"

definition stored_object :: "data_handler \<Rightarrow> string \<Rightarrow> txobj option" where
  "stored_object dh t = (case search_transaction dh t of None \<Rightarrow> None | Some ret \<Rightarrow> map_of ret t)"

definition stored_data :: "data_handler \<Rightarrow> string \<Rightarrow> string" where
  "stored_data dh t = (case stored_object dh t of None \<Rightarrow> [] | Some obj \<Rightarrow> transaction_data obj)"

text \<open>
  An asset record matches when it agrees with every filter that is given; a transaction
  passes the filter when it is stored and, if a filter is given, one of its asset
  records matches.
\<close>

definition matches :: "string option \<Rightarrow> string option \<Rightarrow> string \<times> string \<times> string \<Rightarrow> bool" where
  "matches ag u r = ((ag = None \<or> ag = Some (fst r)) \<and> (u = None \<or> u = Some (snd (snd r))))"

definition passes :: "data_handler \<Rightarrow> string option \<Rightarrow> string option \<Rightarrow> string \<Rightarrow> bool" where
  "passes dh ag u t =
     (case stored_object dh t of
        None \<Rightarrow> False
      | Some obj \<Rightarrow>
          (ag = None \<and> u = None) \<or> list_ex (matches ag u) (get_asset_info dh obj))"

text \<open>The start and the neighbours of a set of transactions.\<close>

definition reached :: "data_handler \<Rightarrow> bool \<Rightarrow> string \<Rightarrow> string set \<Rightarrow> string set" where
  "reached dh past t0 E = insert t0 (\<Union> (neighbours dh past ` E))"

text \<open>
  Invariants of the traversal about the filter: inside a layer (with the ids still to
  visit), between layers, and for the state that is returned.
\<close>

definition pruned :: "data_handler \<Rightarrow> string option \<Rightarrow> string option \<Rightarrow> bool \<Rightarrow> string \<Rightarrow> trav \<Rightarrow> string list \<Rightarrow> bool" where
  "pruned dh ag u past t0 st xs =
     (distinct (expanded st) \<and> set (expanded st) \<subseteq> set (txids st)
      \<and> list_all (passes dh ag u) (expanded st)
      \<and> concat (txtree st) @ tx_brothers st = map (stored_data dh) (expanded st)
      \<and> set (txids st) \<union> set (next_txids st) \<union> set xs \<subseteq> reached dh past t0 (set (expanded st)))"

definition pruned_loop :: "data_handler \<Rightarrow> string option \<Rightarrow> string option \<Rightarrow> bool \<Rightarrow> string \<Rightarrow> trav \<Rightarrow> bool" where
  "pruned_loop dh ag u past t0 st =
     (distinct (expanded st) \<and> set (expanded st) \<subseteq> set (txids st)
      \<and> list_all (passes dh ag u) (expanded st)
      \<and> concat (txtree st) = map (stored_data dh) (expanded st)
      \<and> set (txids st) \<union> set (current_txids st) \<subseteq> reached dh past t0 (set (expanded st)))"

definition pruned_result :: "data_handler \<Rightarrow> string option \<Rightarrow> string option \<Rightarrow> bool \<Rightarrow> string \<Rightarrow> trav \<Rightarrow> bool" where
  "pruned_result dh ag u past t0 st =
     (distinct (expanded st) \<and> set (expanded st) \<subseteq> set (txids st)
      \<and> list_all (passes dh ag u) (expanded st)
      \<and> (raised st = None \<longrightarrow> concat (txtree st) = map (stored_data dh) (expanded st))
      \<and> set (txids st) \<subseteq> reached dh past t0 (set (expanded st)))"

text \<open>
  The number of topology rows of a transaction, a set of ids closed under the
  neighbour relation, and the invariants of the traversal inside such a set: inside a
  layer and between layers.
\<close>

definition degree :: "data_handler \<Rightarrow> bool \<Rightarrow> string \<Rightarrow> nat" where
  "degree dh past t = length (rows dh past t)"

definition within :: "data_handler \<Rightarrow> bool \<Rightarrow> string set \<Rightarrow> trav \<Rightarrow> string list \<Rightarrow> bool" where
  "within dh past R st xs =
     (counted st \<and> set (txids st) \<subseteq> R \<and> set (next_txids st) \<subseteq> R \<and> set xs \<subseteq> R
      \<and> tx_count st + length xs + length (next_txids st)
           \<le> 1 + sum_list (map (degree dh past) (txids st)))"

definition within_loop :: "data_handler \<Rightarrow> bool \<Rightarrow> string set \<Rightarrow> trav \<Rightarrow> bool" where
  "within_loop dh past R st =
     (counted st \<and> set (txids st) \<subseteq> R \<and> set (current_txids st) \<subseteq> R
      \<and> tx_count st + length (current_txids st)
           \<le> 1 + sum_list (map (degree dh past) (txids st)))"

definition closed_under :: "data_handler \<Rightarrow> bool \<Rightarrow> string set \<Rightarrow> bool" where
  "closed_under dh past R = (\<forall>t\<in>R. neighbours dh past t \<subseteq> R)"

section \<open>Unfolding rules\<close>

lemmas env_defs = store_of_def core_of_def accept_all_def reject_all_def chain_store_def
  fan_store_def fan_bs_def fan_cs_def mismatch_store_def match_store_def cycle_store_def

lemmas trav_defs = traverse_transactions_def traverse_final_def clamped_hop_count_def
  traverse_start_def TX_TRAVERSAL_MAX_def layer_def visit_def next_txid_def domains_get_def Let_def

lemmas msg_defs = bytes_arg_def bytes_get_def int_arg_def direction_arg_def opt_bytes_def
  get_default_def
  dict_update_def make_message_structure_def item_def on_value_def after_def finish_def
  checked_def umr_of_def umr_send_def error_reply_def error_reply_or_direct_def domain_key_def
  param_check_def unpack_pair_def bytes_value_def domains_get_def Let_def

lemmas prop_defs = rows_def neighbours_def stored_object_def stored_data_def matches_def
  passes_def reached_def degree_def closed_under_def

section \<open>C1: classification of search results\<close>

text \<open>
  Claim C1, at an input where the code departs from it. The storage finds one object
  under its own id, and \<open>validate_transaction_object\<close> answers \<open>(False, [], [])\<close>:
  the signature check fails. \<open>_create_search_result\<close> lists the object under
  \<open>KeyType.transactions\<close> all the same, since line 81 tests the triple and not its
  first component; so does \<open>search_transaction_with_condition\<close>, and
  \<open>_search_transaction_by_txid\<close> returns it as \<open>transaction_data\<close>.
\<close>

theorem failed_validation_listed_valid:
  "create_search_result (core_of match_store reject_all)
       [(''t1'', \<lparr>transaction_id = ''t1'', transaction_data = ''x1''\<rparr>)]
     = [(K_transactions, VList [VBytes ''x1''])]
   \<and> search_transaction_with_condition (core_of match_store reject_all) (Some ''d1'')
         VNone VNone VNone (VInt 0) (VInt 1)
     = Inr (Some [(K_transactions, VList [VBytes ''x1''])])
   \<and> search_transaction_by_txid (core_of chain_store reject_all) (Some ''d1'') (Some ''A'')
     = Inr (Some [(K_transaction_id, VBytes ''A''), (K_transaction_data, VBytes ''dA'')])
   \<and> fst (validate_transaction_object (core_of match_store reject_all)
         \<lparr>transaction_id = ''t1'', transaction_data = ''x1''\<rparr>) = False"
  by (simp add: create_search_result_def search_transaction_with_condition_def
      search_transaction_by_txid_def first_of_def
      truth_value_def tuple3_len_def setdefault_append_def msg_defs env_defs)

section \<open>The traversal: what every step keeps\<close>

lemma visit_frame [simp]:
  "txtree (visit dh ag u p st x) = txtree st"
  "current_txids (visit dh ag u p st x) = current_txids st"
  "include_all_flag (visit dh ag u p st x) = include_all_flag st"
  "layers_done (visit dh ag u p st x) = layers_done st"
  by (simp_all add: visit_def Let_def split: option.splits)

lemma visit_txids:
  "txids (visit dh ag u p st x) =
     (if raised st = None \<and> x \<notin> set (txids st) then txids st @ [x] else txids st)"
  by (simp add: visit_def Let_def split: option.splits)

lemma visit_tx_count:
  "tx_count (visit dh ag u p st x) =
     (if raised st = None \<and> x \<notin> set (txids st) then tx_count st + 1 else tx_count st)"
  by (simp add: visit_def Let_def split: option.splits)

lemma visit_searched:
  "searched (visit dh ag u p st x) =
     (if raised st = None \<and> x \<notin> set (txids st) then searched st @ [x] else searched st)"
  by (simp add: visit_def Let_def split: option.splits)

lemma visit_counted: "counted st \<Longrightarrow> counted (visit dh ag u p st x)"
  by (simp add: counted_def visit_txids visit_tx_count visit_searched)

lemma fold_visit_counted:
  "counted st \<Longrightarrow> counted (foldl (visit dh ag u p) st xs)"
  by (induction xs arbitrary: st) (simp_all add: visit_counted)

lemma fold_visit_tx_count:
  "tx_count (foldl (visit dh ag u p) st xs) \<le> tx_count st + length xs"
proof (induction xs arbitrary: st)
  case Nil
  show ?case by simp
next
  case (Cons x xs)
  have "tx_count (foldl (visit dh ag u p) (visit dh ag u p st x) xs)
          \<le> tx_count (visit dh ag u p st x) + length xs"
    by (rule Cons.IH)
  also have "\<dots> \<le> (tx_count st + 1) + length xs"
    by (simp add: visit_tx_count)
  finally show ?case by simp
qed

lemma fold_visit_frame [simp]:
  "txtree (foldl (visit dh ag u p) st xs) = txtree st"
  "current_txids (foldl (visit dh ag u p) st xs) = current_txids st"
  "include_all_flag (foldl (visit dh ag u p) st xs) = include_all_flag st"
  "layers_done (foldl (visit dh ag u p) st xs) = layers_done st"
  by (induction xs arbitrary: st) simp_all

lemma layer_counted: "counted st \<Longrightarrow> counted (layer dh ag u p st)"
proof -
  assume c: "counted st"
  have "counted (st\<lparr>tx_brothers := [], next_txids := [], layers_done := layers_done st + 1\<rparr>)"
    using c by (simp add: counted_def)
  then have "counted (foldl (visit dh ag u p)
      (st\<lparr>tx_brothers := [], next_txids := [], layers_done := layers_done st + 1\<rparr>) (current_txids st))"
    by (rule fold_visit_counted)
  then show ?thesis by (simp add: layer_def Let_def counted_def)
qed

lemma layer_tx_count: "tx_count (layer dh ag u p st) \<le> tx_count st + length (current_txids st)"
  using fold_visit_tx_count [of dh ag u p
      "st\<lparr>tx_brothers := [], next_txids := [], layers_done := layers_done st + 1\<rparr>" "current_txids st"]
  by (simp add: layer_def Let_def)

lemma layer_layers_done: "layers_done (layer dh ag u p st) = layers_done st + 1"
  by (simp add: layer_def Let_def)

lemma layer_flag: "include_all_flag (layer dh ag u p st) = include_all_flag st"
  by (simp add: layer_def Let_def)

lemma loop_counted:
  "counted st \<Longrightarrow> tx_count st \<le> TX_TRAVERSAL_MAX
    \<Longrightarrow> counted (traverse_loop dh ag u p n st) \<and> tx_count (traverse_loop dh ag u p n st) \<le> TX_TRAVERSAL_MAX"
proof (induction n arbitrary: st)
  case 0
  then show ?case by simp
next
  case (Suc n)
  show ?case
  proof (cases "tx_count st + length (current_txids st) > TX_TRAVERSAL_MAX")
    case True
    then show ?thesis using Suc.prems by (simp add: counted_def)
  next
    case False
    have c: "counted (layer dh ag u p st)" using Suc.prems(1) by (rule layer_counted)
    have b: "tx_count (layer dh ag u p st) \<le> TX_TRAVERSAL_MAX"
      using layer_tx_count [of dh ag u p st] False by simp
    show ?thesis using False c b Suc.IH [OF c b] by (simp add: Let_def)
  qed
qed

lemma loop_layers_done:
  "layers_done (traverse_loop dh ag u p n st) \<le> layers_done st + n"
proof (induction n arbitrary: st)
  case 0
  show ?case by simp
next
  case (Suc n)
  have "layers_done (traverse_loop dh ag u p n (layer dh ag u p st)) \<le> layers_done (layer dh ag u p st) + n"
    by (rule Suc.IH)
  then show ?case by (simp add: Let_def layer_layers_done)
qed

lemma visit_flag_update:
  "visit dh ag u p (st\<lparr>include_all_flag := b\<rparr>) x = (visit dh ag u p st x)\<lparr>include_all_flag := b\<rparr>"
  by (simp add: visit_def Let_def split: option.splits)

lemma fold_visit_flag_update:
  "foldl (visit dh ag u p) (st\<lparr>include_all_flag := b\<rparr>) xs
     = (foldl (visit dh ag u p) st xs)\<lparr>include_all_flag := b\<rparr>"
  by (induction xs arbitrary: st) (simp_all add: visit_flag_update)

lemma layer_flag_update:
  "layer dh ag u p (st\<lparr>include_all_flag := b\<rparr>) = (layer dh ag u p st)\<lparr>include_all_flag := b\<rparr>"
proof -
  define S where "S = foldl (visit dh ag u p)
     (st\<lparr>tx_brothers := [], next_txids := [], layers_done := layers_done st + 1\<rparr>) (current_txids st)"
  have e: "st\<lparr>include_all_flag := b, tx_brothers := [], next_txids := [], layers_done := Suc (layers_done st)\<rparr>
     = (st\<lparr>tx_brothers := [], next_txids := [], layers_done := layers_done st + 1\<rparr>)\<lparr>include_all_flag := b\<rparr>"
    by simp
  have a: "foldl (visit dh ag u p)
     (st\<lparr>include_all_flag := b, tx_brothers := [], next_txids := [], layers_done := Suc (layers_done st)\<rparr>)
     (current_txids st) = S\<lparr>include_all_flag := b\<rparr>"
    unfolding S_def e by (rule fold_visit_flag_update)
  have b: "layer dh ag u p st =
     (if raised S \<noteq> None then S
      else S\<lparr>txtree := (if length (tx_brothers S) > 0 then txtree S @ [tx_brothers S] else txtree S),
              current_txids := next_txids S\<rparr>)"
    by (simp add: layer_def Let_def S_def)
  show ?thesis
    unfolding b by (simp add: layer_def Let_def a)
qed

lemma loop_flag_update:
  "traverse_loop dh ag u p n (st\<lparr>include_all_flag := False\<rparr>)
     = (traverse_loop dh ag u p n st)\<lparr>include_all_flag := False\<rparr>"
proof (induction n arbitrary: st)
  case 0
  show ?case by simp
next
  case (Suc n)
  show ?case by (simp add: Let_def layer_flag_update Suc.IH)
qed


lemma traverse_transactions_registered:
  "map_of (domains c) d = Some dm \<Longrightarrow>
   traverse_transactions c (Some d) (Some t) ag u dir hop =
     (case raised (traverse_final (domain_data dm) t ag u dir hop) of
        Some e \<Rightarrow> Inl e
      | None \<Rightarrow> Inr (Some (include_all_flag (traverse_final (domain_data dm) t ag u dir hop),
                            txtree (traverse_final (domain_data dm) t ag u dir hop))))"
  by (simp add: traverse_transactions_def domains_get_def Let_def)

lemma start_counted: "counted (traverse_start t hop)"
  by (simp add: counted_def traverse_start_def)

lemma final_counted:
  "counted (traverse_final dh t ag u dir hop)"
  "tx_count (traverse_final dh t ag u dir hop) \<le> TX_TRAVERSAL_MAX"
  using loop_counted [OF start_counted, of t hop dh ag u "dir = 1" "clamped_hop_count hop"]
  by (simp_all add: traverse_final_def traverse_start_def)

lemma final_layers_done: "layers_done (traverse_final dh t ag u dir hop) \<le> 60"
proof -
  have "layers_done (traverse_final dh t ag u dir hop) \<le> clamped_hop_count hop"
    using loop_layers_done [of dh ag u "dir = 1" "clamped_hop_count hop" "traverse_start t hop"]
    by (simp add: traverse_final_def traverse_start_def)
  moreover have "clamped_hop_count hop \<le> 60"
    unfolding clamped_hop_count_def TX_TRAVERSAL_MAX_def by (cases "60 < hop") simp_all
  ultimately show ?thesis by simp
qed

lemma final_clamped:
  assumes "hop > 60"
  shows "traverse_final dh t ag u dir hop = (traverse_final dh t ag u dir 60)\<lparr>include_all_flag := False\<rparr>"
proof -
  have s: "traverse_start t hop = (traverse_start t 60)\<lparr>include_all_flag := False\<rparr>"
    using assms by (simp add: traverse_start_def TX_TRAVERSAL_MAX_def)
  have h: "clamped_hop_count hop = clamped_hop_count 60"
    using assms by (simp add: clamped_hop_count_def TX_TRAVERSAL_MAX_def)
  show ?thesis
    unfolding traverse_final_def s h by (rule loop_flag_update)
qed

lemma loop_stops_at_cap:
  assumes "TX_TRAVERSAL_MAX < tx_count s + card (set (current_txids s) - set (txids s))"
  shows "traverse_loop dh ag u p (Suc n) s = s\<lparr>include_all_flag := False\<rparr>"
proof -
  have "card (set (current_txids s) - set (txids s)) \<le> card (set (current_txids s))"
    by (rule card_mono) auto
  also have "\<dots> \<le> length (current_txids s)"
    by (rule card_length)
  finally have "TX_TRAVERSAL_MAX < tx_count s + length (current_txids s)"
    using assms by simp
  then show ?thesis by simp
qed

section \<open>C2: the caps of the traversal\<close>

text \<open>
  Claim C2. For a registered domain and a start id that is not \<open>None\<close>,
  \<open>_traverse_transactions\<close> returns the flag and the tree of the state in which its
  loop ends (or raises what the loop raised), and in that state: the visited ids are
  distinct and at most 30, they are exactly the ids looked up, and at most 60 layers
  were expanded. A \<open>hop_count\<close> above 60 gives the run of \<open>hop_count = 60\<close> with the
  flag set to false. From any state of the loop with an iteration left, if the visited
  count plus the number of new ids among the candidates of the next layer exceeds 30,
  the loop ends there: the flag becomes false and nothing else changes, so the tree
  gathered so far is what is returned.
\<close>

theorem traverse_caps:
  assumes reg: "map_of (domains c) d = Some dm"
  shows "traverse_transactions c (Some d) (Some t) ag u dir hop =
           (case raised (traverse_final (domain_data dm) t ag u dir hop) of
              Some e \<Rightarrow> Inl e
            | None \<Rightarrow> Inr (Some (include_all_flag (traverse_final (domain_data dm) t ag u dir hop),
                                  txtree (traverse_final (domain_data dm) t ag u dir hop))))
       \<and> distinct (txids (traverse_final (domain_data dm) t ag u dir hop))
       \<and> length (txids (traverse_final (domain_data dm) t ag u dir hop)) \<le> 30
       \<and> searched (traverse_final (domain_data dm) t ag u dir hop)
           = txids (traverse_final (domain_data dm) t ag u dir hop)
       \<and> layers_done (traverse_final (domain_data dm) t ag u dir hop) \<le> 60
       \<and> (60 < hop \<longrightarrow>
            traverse_final (domain_data dm) t ag u dir hop
              = (traverse_final (domain_data dm) t ag u dir 60)\<lparr>include_all_flag := False\<rparr>)
       \<and> (\<forall>n s. 30 < tx_count s + card (set (current_txids s) - set (txids s)) \<longrightarrow>
            traverse_loop (domain_data dm) ag u (dir = 1) (Suc n) s = s\<lparr>include_all_flag := False\<rparr>)"
proof -
  let ?st = "traverse_final (domain_data dm) t ag u dir hop"
  have c: "counted ?st" and b: "tx_count ?st \<le> TX_TRAVERSAL_MAX"
    by (rule final_counted)+
  have 1: "distinct (txids ?st)" and 2: "length (txids ?st) \<le> 30" and 3: "searched ?st = txids ?st"
    using c b by (simp_all add: counted_def TX_TRAVERSAL_MAX_def)
  have 4: "\<forall>n s. 30 < tx_count s + card (set (current_txids s) - set (txids s)) \<longrightarrow>
            traverse_loop (domain_data dm) ag u (dir = 1) (Suc n) s = s\<lparr>include_all_flag := False\<rparr>"
    using loop_stops_at_cap [of _ "domain_data dm" ag u "dir = 1"]
    by (simp add: TX_TRAVERSAL_MAX_def)
  show ?thesis
    using traverse_transactions_registered [OF reg] 1 2 3 4 final_layers_done final_clamped
    by simp
qed

theorem traverse_caps_witness:
  "traverse_transactions (core_of chain_store accept_all) (Some ''d1'') (Some ''A'') None None 1 100
     = Inr (Some (False, [[''dA''], [''dB'']]))
   \<and> length (txids (traverse_final chain_store ''A'' None None 1 100)) \<le> 30
   \<and> layers_done (traverse_final chain_store ''A'' None None 1 100) \<le> 60"
proof -
  have reg: "map_of (domains (core_of chain_store accept_all)) ''d1''
        = Some \<lparr>domain_data = chain_store, domain_name = ''n1''\<rparr>"
    by (simp add: core_of_def)
  note T = traverse_caps [OF reg, of "''A''" None None 1 100, unfolded domain.select_convs]
  have r: "raised (traverse_final chain_store ''A'' None None 1 60) = None"
    "txtree (traverse_final chain_store ''A'' None None 1 60) = [[''dA''], [''dB'']]"
    by (simp_all add: trav_defs env_defs eval_nat_numeral)
  from T have f: "traverse_final chain_store ''A'' None None 1 100
       = (traverse_final chain_store ''A'' None None 1 60)\<lparr>include_all_flag := False\<rparr>"
    by simp
  from T have l: "length (txids (traverse_final chain_store ''A'' None None 1 100)) \<le> 30"
    by (elim conjE)
  from T have h: "layers_done (traverse_final chain_store ''A'' None None 1 100) \<le> 60"
    by (elim conjE)
  from T have v: "traverse_transactions (core_of chain_store accept_all) (Some ''d1'') (Some ''A'') None None 1 100
      = Inr (Some (False, [[''dA''], [''dB'']]))"
    by (simp add: f r)
  from v l h show ?thesis by (intro conjI)
qed


section \<open>The traversal and the filter\<close>

lemma asset_flag_iff:
  "asset_flag ag u recs f = ((recs = [] \<and> f) \<or> list_ex (matches ag u) recs)"
  by (induction ag u recs f rule: asset_flag.induct) (auto simp add: matches_def Let_def)

lemma topology_loop_set:
  "set (topology_loop past ids rs nxt) \<subseteq> set nxt \<union> next_txid past ` set rs"
  by (induction past ids rs nxt rule: topology_loop.induct) auto

lemma topology_loop_length:
  "length (topology_loop past ids rs nxt) \<le> length nxt + length rs"
proof (induction past ids rs nxt rule: topology_loop.induct)
  case (1 traverse_to_past ids nxt)
  show ?case by simp
next
  case (2 traverse_to_past ids topology rest nxt)
  then show ?case by (simp split: if_splits)
qed

lemma visit_cases:
  "(expanded (visit dh ag u p st x) = expanded st
      \<and> tx_brothers (visit dh ag u p st x) = tx_brothers st
      \<and> next_txids (visit dh ag u p st x) = next_txids st)
   \<or> (raised st = None \<and> x \<notin> set (txids st) \<and> passes dh ag u x
      \<and> raised (visit dh ag u p st x) = None
      \<and> expanded (visit dh ag u p st x) = expanded st @ [x]
      \<and> tx_brothers (visit dh ag u p st x) = tx_brothers st @ [stored_data dh x]
      \<and> next_txids (visit dh ag u p st x)
          = topology_loop p (txids st @ [x]) (rows dh p x) (next_txids st))"
  by (auto simp add: visit_def Let_def passes_def stored_object_def stored_data_def rows_def
      asset_flag_iff split: option.splits)


lemma reached_mono: "E \<subseteq> E' \<Longrightarrow> reached dh past t0 E \<subseteq> reached dh past t0 E'"
  by (auto simp add: reached_def)

lemma reached_neighbours: "x \<in> E \<Longrightarrow> neighbours dh past x \<subseteq> reached dh past t0 E"
  by (auto simp add: reached_def)

lemma visit_pruned:
  assumes "pruned dh ag u p t0 st (x # xs)"
  shows "pruned dh ag u p t0 (visit dh ag u p st x) xs"
proof -
  let ?st = "visit dh ag u p st x"
  have xr: "x \<in> reached dh p t0 (set (expanded st))"
    using assms by (simp add: pruned_def)
  have tx: "set (txids ?st) \<subseteq> insert x (set (txids st))" "set (txids st) \<subseteq> set (txids ?st)"
    by (auto simp add: visit_txids)
  consider
    (same) "expanded ?st = expanded st" "tx_brothers ?st = tx_brothers st"
      "next_txids ?st = next_txids st"
  | (more) "raised st = None" "x \<notin> set (txids st)" "passes dh ag u x"
      "expanded ?st = expanded st @ [x]"
      "tx_brothers ?st = tx_brothers st @ [stored_data dh x]"
      "next_txids ?st = topology_loop p (txids st @ [x]) (rows dh p x) (next_txids st)"
    using visit_cases [of dh ag u p st x] by (elim disjE conjE) auto
  then show ?thesis
  proof cases
    case same
    then show ?thesis
      using assms tx xr by (auto simp add: pruned_def)
  next
    case more
    have m: "reached dh p t0 (set (expanded st)) \<subseteq> reached dh p t0 (set (expanded ?st))"
      by (rule reached_mono) (auto simp add: more(4))
    have n: "set (next_txids ?st) \<subseteq> set (next_txids st) \<union> neighbours dh p x"
      unfolding more(6) neighbours_def by (rule topology_loop_set)
    have nb: "neighbours dh p x \<subseteq> reached dh p t0 (set (expanded ?st))"
      by (rule reached_neighbours) (simp add: more(4))
    have t: "txids ?st = txids st @ [x]"
      using more(1,2) by (simp add: visit_txids)
    have a: "distinct (expanded ?st)" "set (expanded ?st) \<subseteq> set (txids ?st)"
      "list_all (passes dh ag u) (expanded ?st)"
      "concat (txtree ?st) @ tx_brothers ?st = map (stored_data dh) (expanded ?st)"
      using assms more t by (auto simp add: pruned_def)
    have q: "set (txids st) \<subseteq> reached dh p t0 (set (expanded st))"
      "set (next_txids st) \<subseteq> reached dh p t0 (set (expanded st))"
      "set xs \<subseteq> reached dh p t0 (set (expanded st))"
      using assms by (simp_all add: pruned_def)
    have ts: "set (txids ?st) = insert x (set (txids st))"
      by (simp add: t)
    have b: "set (txids ?st) \<union> set (next_txids ?st) \<union> set xs \<subseteq> reached dh p t0 (set (expanded ?st))"
    proof -
      have "set (txids ?st) \<subseteq> reached dh p t0 (set (expanded st))"
        using q(1) xr by (simp add: ts)
      then have 1: "set (txids ?st) \<subseteq> reached dh p t0 (set (expanded ?st))"
        using m by (rule subset_trans)
      have 2: "set (next_txids ?st) \<subseteq> reached dh p t0 (set (expanded ?st))"
        using n by (rule subset_trans) (rule Un_least [OF subset_trans [OF q(2) m] nb])
      have 3: "set xs \<subseteq> reached dh p t0 (set (expanded ?st))"
        using q(3) m by (rule subset_trans)
      show ?thesis using 1 2 3 by simp
    qed
    show ?thesis using a b by (simp add: pruned_def)
  qed
qed

lemma fold_visit_pruned:
  "pruned dh ag u p t0 st xs \<Longrightarrow> pruned dh ag u p t0 (foldl (visit dh ag u p) st xs) []"
  by (induction xs arbitrary: st) (simp_all add: visit_pruned)

lemma layer_pruned:
  assumes "pruned_loop dh ag u p t0 st"
  shows "(raised (layer dh ag u p st) \<noteq> None \<and> pruned_result dh ag u p t0 (layer dh ag u p st))
       \<or> (raised (layer dh ag u p st) = None \<and> pruned_loop dh ag u p t0 (layer dh ag u p st))"
proof -
  define S where "S = foldl (visit dh ag u p)
     (st\<lparr>tx_brothers := [], next_txids := [], layers_done := layers_done st + 1\<rparr>) (current_txids st)"
  have "pruned dh ag u p t0
     (st\<lparr>tx_brothers := [], next_txids := [], layers_done := layers_done st + 1\<rparr>) (current_txids st)"
    using assms by (simp add: pruned_def pruned_loop_def)
  then have S: "pruned dh ag u p t0 S []"
    unfolding S_def by (rule fold_visit_pruned)
  have l: "layer dh ag u p st =
     (if raised S \<noteq> None then S
      else S\<lparr>txtree := (if length (tx_brothers S) > 0 then txtree S @ [tx_brothers S] else txtree S),
              current_txids := next_txids S\<rparr>)"
    by (simp add: layer_def Let_def S_def)
  show ?thesis
  proof (cases "raised S = None")
    case True
    then show ?thesis using S by (auto simp add: l pruned_def pruned_loop_def)
  next
    case False
    then show ?thesis using S by (auto simp add: l pruned_def pruned_result_def)
  qed
qed

lemma pruned_loop_result:
  "pruned_loop dh ag u p t0 st \<Longrightarrow> pruned_result dh ag u p t0 (st\<lparr>include_all_flag := b\<rparr>)"
  "pruned_loop dh ag u p t0 st \<Longrightarrow> pruned_result dh ag u p t0 st"
  by (auto simp add: pruned_loop_def pruned_result_def)

lemma loop_pruned:
  "pruned_loop dh ag u p t0 st \<Longrightarrow> pruned_result dh ag u p t0 (traverse_loop dh ag u p n st)"
proof (induction n arbitrary: st)
  case 0
  then show ?case by (simp add: pruned_loop_result)
next
  case (Suc n)
  show ?case
  proof (cases "tx_count st + length (current_txids st) > TX_TRAVERSAL_MAX")
    case True
    then show ?thesis using Suc.prems by (simp add: pruned_loop_result)
  next
    case False
    show ?thesis
      using layer_pruned [OF Suc.prems] False Suc.IH [of "layer dh ag u p st"]
      by (auto simp add: Let_def)
  qed
qed

lemma start_pruned: "pruned_loop dh ag u p t0 (traverse_start t0 hop)"
  by (simp add: pruned_loop_def traverse_start_def reached_def)

lemma final_pruned:
  "pruned_result dh ag u (dir = 1) t0 (traverse_final dh t0 ag u dir hop)"
  unfolding traverse_final_def by (rule loop_pruned [OF start_pruned])

section \<open>C3: the filter and the topology\<close>

text \<open>
  Claim C3, amended. In the state in which the traversal ends, every transaction whose
  topology was queried passes the filter (it is stored, and when an \<open>asset_group_id\<close>
  or \<open>user_id\<close> filter is given one of its asset records matches all given filters);
  the returned tree, layer after layer, holds the data of exactly these transactions;
  and every visited id is the start or a neighbour of one of them. So a visited
  transaction without a matching asset record is left out of the tree and its topology
  is not queried: its neighbours are visited only when a transaction that passes the
  filter leads to them. For a registered domain the tree that
  \<open>_traverse_transactions\<close> returns is the tree of this state
  (\<open>traverse_transactions_registered\<close>).
\<close>

theorem filter_prunes_traversal:
  "list_all (passes dh ag u) (expanded (traverse_final dh t0 ag u dir hop))
   \<and> (raised (traverse_final dh t0 ag u dir hop) = None \<longrightarrow>
        concat (txtree (traverse_final dh t0 ag u dir hop))
          = map (stored_data dh) (expanded (traverse_final dh t0 ag u dir hop)))
   \<and> set (expanded (traverse_final dh t0 ag u dir hop))
        \<subseteq> set (txids (traverse_final dh t0 ag u dir hop))
   \<and> set (txids (traverse_final dh t0 ag u dir hop))
        \<subseteq> reached dh (dir = 1) t0 (set (expanded (traverse_final dh t0 ag u dir hop)))"
  using final_pruned [of dh ag u dir t0 hop] by (simp add: pruned_result_def)

theorem filter_prunes_traversal_witness:
  "concat (txtree (traverse_final chain_store ''B'' (Some ''g1'') None 1 3)) = [''dB'']
   \<and> list_all (passes chain_store (Some ''g1'') None) [''B'']
   \<and> set (txids (traverse_final chain_store ''B'' (Some ''g1'') None 1 3))
        \<subseteq> reached chain_store True ''B'' {''B''}"
proof -
  have e: "expanded (traverse_final chain_store ''B'' (Some ''g1'') None 1 3) = [''B'']"
    "raised (traverse_final chain_store ''B'' (Some ''g1'') None 1 3) = None"
    by (simp_all add: trav_defs env_defs eval_nat_numeral)
  have d: "stored_data chain_store ''B'' = ''dB''"
    by (simp add: prop_defs env_defs)
  show ?thesis
    using filter_prunes_traversal [of chain_store "Some ''g1''" None "''B''" 1 3]
    by (simp add: e d)
qed

text \<open>
  Claim C3 as stated fails: \<open>A\<close> refers to \<open>B\<close>, only \<open>B\<close> has an asset record of
  group \<open>g1\<close>. The traversal from \<open>A\<close> with that filter looks up \<open>A\<close> alone and
  returns the empty tree; the topology of \<open>A\<close> is never queried, and \<open>B\<close>, which
  passes the filter, is never visited.
\<close>

theorem filtered_out_not_expanded:
  "traverse_transactions (core_of chain_store accept_all) (Some ''d1'') (Some ''A'') (Some ''g1'') None 1 3
     = Inr (Some (True, []))
   \<and> searched (traverse_final chain_store ''A'' (Some ''g1'') None 1 3) = [''A'']
   \<and> expanded (traverse_final chain_store ''A'' (Some ''g1'') None 1 3) = []
   \<and> neighbours chain_store True ''A'' = {''B''}
   \<and> passes chain_store (Some ''g1'') None ''B''"
  by (simp add: trav_defs prop_defs env_defs eval_nat_numeral)

section \<open>C4: a message that lacks a mandatory key\<close>

text \<open>
  Claim C4, at two inputs where the code departs from it. A search request without
  \<open>domain_id\<close> and without \<open>transaction_id\<close> fails the parameter check of line 228;
  \<open>_error_reply\<close> then reads \<open>msg[KeyType.domain_id]\<close> and raises \<open>KeyError\<close>: no
  reply is sent, the exception ends the connection loop, and a well-formed request that
  follows on the same connection is never handled. The same request with the id of an
  unregistered domain gets no reply at all, neither routed nor direct: \<open>_param_check\<close>
  drops the \<open>False\<close> that \<open>_error_reply\<close> returns.
\<close>

theorem malformed_message_without_reply:
  "process (core_of chain_store accept_all)
       [(K_command, VCmd REQUEST_SEARCH_TRANSACTION), (K_source_user_id, VBytes ''u1''),
        (K_query_id, VBytes ''q1'')]
     = ([], Inl KeyError)
   \<and> handler (core_of chain_store accept_all)
       [[[(K_command, VCmd REQUEST_SEARCH_TRANSACTION), (K_source_user_id, VBytes ''u1''),
          (K_query_id, VBytes ''q1'')]],
        [[(K_domain_id, VBytes ''d1''), (K_command, VCmd REQUEST_SEARCH_TRANSACTION),
          (K_source_user_id, VBytes ''u1''), (K_query_id, VBytes ''q1''),
          (K_transaction_id, VBytes ''A'')]]] None
     = ([], Excepted KeyError)
   \<and> process (core_of chain_store accept_all)
       [(K_domain_id, VBytes ''dX''), (K_command, VCmd REQUEST_SEARCH_TRANSACTION),
        (K_source_user_id, VBytes ''u1''), (K_query_id, VBytes ''q1'')]
     = ([], Inr (False, None))"
  by (simp add: process_def msg_defs env_defs)

section \<open>C5: the results of \<open>insert_transaction\<close>\<close>

lemma validate_transaction_None:
  "(validate_transaction c txdata = None) =
     (deserialize c txdata = None
      \<or> (\<exists>obj. deserialize c txdata = Some obj \<and> \<not> fst (validate_transaction_object c (digest c obj))))"
  by (auto simp add: validate_transaction_def Let_def split: option.splits prod.splits)

lemma validate_transaction_Some:
  "deserialize c txdata = Some obj \<Longrightarrow> fst (validate_transaction_object c (digest c obj))
     \<Longrightarrow> validate_transaction c txdata = Some (digest c obj)"
  by (auto simp add: validate_transaction_def Let_def split: option.splits prod.splits)

text \<open>
  Claim C5, amended. \<open>insert_transaction\<close> with \<open>domain_id = None\<close> returns the
  string "Set up the domain, first!", whatever the deserializer would do. For a
  registered domain it returns "Bad transaction format" when deserialization fails or
  the deserialized object fails validation, "Failed to insert a transaction into the
  ledger" when the storage handle returns \<open>None\<close>, and otherwise, when the lengths of
  the transaction id, of the domain id and of the list of asset groups each fit one
  byte, the dictionary with the transaction id, after broadcasting the notification
  frame. In none of these cases does it raise.
\<close>

theorem insert_transaction_results:
  "insert_transaction c None txdata = ([], Inr (Reason ''Set up the domain, first!''))
   \<and> (map_of (domains c) d = Some dm \<longrightarrow>
        ((deserialize c txdata = None
           \<or> (\<exists>obj. deserialize c txdata = Some obj
                  \<and> \<not> fst (validate_transaction_object c (digest c obj))))
          \<longrightarrow> insert_transaction c (Some d) txdata = ([], Inr (Reason ''Bad transaction format'')))
      \<and> (\<forall>obj. deserialize c txdata = Some obj
                 \<and> fst (validate_transaction_object c (digest c obj)) \<longrightarrow>
            (dh_insert_transaction (domain_data dm) txdata (digest c obj) = None
               \<longrightarrow> insert_transaction c (Some d) txdata
                     = ([], Inr (Reason ''Failed to insert a transaction into the ledger'')))
          \<and> (\<forall>ags. dh_insert_transaction (domain_data dm) txdata (digest c obj) = Some ags
                     \<and> length (transaction_id (digest c obj)) < 256 \<and> length d < 256
                     \<and> length ags < 256 \<longrightarrow>
                 insert_transaction c (Some d) txdata
                   = ([Broadcast d
                         ([char_of (length (transaction_id (digest c obj))), char_of (length d)]
                          @ transaction_id (digest c obj) @ d
                          @ [char_of (length ags)] @ concat ags)],
                      Inr (Inserted [(K_transaction_id, VBytes (transaction_id (digest c obj)))])))))"
proof -
  have 1: "insert_transaction c None txdata = ([], Inr (Reason ''Set up the domain, first!''))"
    by (simp add: insert_transaction_def)
  have 2: "insert_transaction c (Some d) txdata = ([], Inr (Reason ''Bad transaction format''))"
    if "deserialize c txdata = None
           \<or> (\<exists>obj. deserialize c txdata = Some obj
                  \<and> \<not> fst (validate_transaction_object c (digest c obj)))"
  proof -
    have "validate_transaction c txdata = None"
      using that by (simp add: validate_transaction_None)
    then show ?thesis by (simp add: insert_transaction_def)
  qed
  have 3: "insert_transaction c (Some d) txdata
             = ([], Inr (Reason ''Failed to insert a transaction into the ledger''))"
    if "map_of (domains c) d = Some dm" "deserialize c txdata = Some obj"
      "fst (validate_transaction_object c (digest c obj))"
      "dh_insert_transaction (domain_data dm) txdata (digest c obj) = None" for obj
    using that validate_transaction_Some [OF that(2,3)]
    by (simp add: insert_transaction_def domains_get_def)
  have 4: "insert_transaction c (Some d) txdata
                   = ([Broadcast d
                         ([char_of (length (transaction_id (digest c obj))), char_of (length d)]
                          @ transaction_id (digest c obj) @ d
                          @ [char_of (length ags)] @ concat ags)],
                      Inr (Inserted [(K_transaction_id, VBytes (transaction_id (digest c obj)))]))"
    if "map_of (domains c) d = Some dm" "deserialize c txdata = Some obj"
      "fst (validate_transaction_object c (digest c obj))"
      "dh_insert_transaction (domain_data dm) txdata (digest c obj) = Some ags"
      "length (transaction_id (digest c obj)) < 256" "length d < 256" "length ags < 256" for obj ags
    using that validate_transaction_Some [OF that(2,3)]
    by (simp add: insert_transaction_def domains_get_def send_inserted_notification_def to_bytes1_def)
  show ?thesis using 1 2 3 4 by blast
qed

theorem insert_transaction_results_witness:
  "insert_transaction (core_of chain_store accept_all) None ''raw''
     = ([], Inr (Reason ''Set up the domain, first!''))
   \<and> insert_transaction (core_of chain_store reject_all) (Some ''d1'') ''raw''
     = ([], Inr (Reason ''Bad transaction format''))
   \<and> insert_transaction (core_of chain_store accept_all) (Some ''d1'') ''raw''
     = ([Broadcast ''d1'' ([char_of (4::nat), char_of (2::nat)] @ ''#raw'' @ ''d1'' @ [char_of (1::nat)] @ ''g1'')],
        Inr (Inserted [(K_transaction_id, VBytes ''#raw'')]))"
proof -
  let ?dm = "\<lparr>domain_data = chain_store, domain_name = ''n1''\<rparr>"
  have rega: "map_of (domains (core_of chain_store accept_all)) ''d1'' = Some ?dm"
    and regr: "map_of (domains (core_of chain_store reject_all)) ''d1'' = Some ?dm"
    by (simp_all add: core_of_def)
  have a: "insert_transaction (core_of chain_store accept_all) None ''raw''
     = ([], Inr (Reason ''Set up the domain, first!''))"
    using insert_transaction_results [of "core_of chain_store accept_all" "''raw''" "''d1''" ?dm]
    by (elim conjE)
  have b: "insert_transaction (core_of chain_store reject_all) (Some ''d1'') ''raw''
     = ([], Inr (Reason ''Bad transaction format''))"
    using insert_transaction_results [of "core_of chain_store reject_all" "''raw''" "''d1''" ?dm] regr
    by (simp add: env_defs)
  have c: "insert_transaction (core_of chain_store accept_all) (Some ''d1'') ''raw''
     = ([Broadcast ''d1'' ([char_of (4::nat), char_of (2::nat)] @ ''#raw'' @ ''d1'' @ [char_of (1::nat)] @ ''g1'')],
        Inr (Inserted [(K_transaction_id, VBytes ''#raw'')]))"
    using insert_transaction_results [of "core_of chain_store accept_all" "''raw''" "''d1''" ?dm] rega
    by (simp add: env_defs)
  from a b c show ?thesis by (intro conjI)
qed

text \<open>
  Claim C5 as stated fails for a domain id that is not registered: with a transaction
  that validates the call raises \<open>KeyError\<close> instead of returning a reason, and
  with one that does not validate it returns "Bad transaction format", so the
  deserializer ran before any look at the domain.
\<close>

theorem unregistered_domain_raises:
  "insert_transaction (core_of chain_store accept_all) (Some ''dX'') ''raw'' = ([], Inl KeyError)
   \<and> insert_transaction (core_of chain_store reject_all) (Some ''dX'') ''raw''
       = ([], Inr (Reason ''Bad transaction format''))
   \<and> map_of (domains (core_of chain_store accept_all)) ''dX'' = None"
  by (simp add: insert_transaction_def validate_transaction_def msg_defs env_defs)

section \<open>C6: the reply to a search with conditions\<close>

lemma setdefault_append_other:
  "k' \<noteq> k \<Longrightarrow> map_of (setdefault_append k x d) k' = map_of d k'"
  by (simp add: setdefault_append_def update_conv' split: option.splits pyval.splits)

lemma setdefault_append_same:
  "map_of (setdefault_append k x d) k \<noteq> None"
  by (simp add: setdefault_append_def update_conv' split: option.splits pyval.splits)

lemma setdefault_append_keys:
  "fst ` set (setdefault_append k x d) = insert k (fst ` set d)"
  by (simp add: setdefault_append_def dom_update split: option.splits pyval.splits)

lemma setdefault_append_distinct:
  "distinct (map fst d) \<Longrightarrow> distinct (map fst (setdefault_append k x d))"
  by (simp add: setdefault_append_def distinct_update split: option.splits pyval.splits)

lemma search_result_loop_keys:
  "fst ` set (search_result_loop v d info)
     \<subseteq> fst ` set info \<union> {K_transactions, K_compromised_transactions}"
  by (induction v d info rule: search_result_loop.induct)
     (auto simp add: setdefault_append_keys)

lemma search_result_loop_distinct:
  "distinct (map fst info) \<Longrightarrow> distinct (map fst (search_result_loop v d info))"
  by (induction v d info rule: search_result_loop.induct)
     (simp_all add: setdefault_append_distinct)

lemma search_result_loop_no_match:
  "\<forall>p\<in>set d. fst p \<noteq> transaction_id (snd p) \<Longrightarrow>
   map_of (search_result_loop v d info) K_transactions = map_of info K_transactions"
  by (induction v d info rule: search_result_loop.induct)
     (simp_all add: setdefault_append_other)

lemma search_result_loop_kept:
  "map_of info K_transactions \<noteq> None \<Longrightarrow>
   map_of (search_result_loop v d info) K_transactions \<noteq> None"
proof (induction v d info rule: search_result_loop.induct)
  case (1 validate response_info)
  then show ?case by simp
next
  case (2 validate txid txobj rest response_info)
  then show ?case
    by (simp add: setdefault_append_other setdefault_append_same)
qed

lemma search_result_loop_match:
  "\<exists>p\<in>set d. fst p = transaction_id (snd p) \<Longrightarrow>
   map_of (search_result_loop v d info) K_transactions \<noteq> None"
proof (induction v d info rule: search_result_loop.induct)
  case (1 validate response_info)
  then show ?case by simp
next
  case (2 validate txid txobj rest response_info)
  show ?case
  proof (cases "txid = transaction_id txobj")
    case True
    then show ?thesis
      by (simp add: truth_value_def tuple3_len_def search_result_loop_kept setdefault_append_same)
  next
    case False
    then show ?thesis using 2 by auto
  qed
qed

lemma create_search_result_keys:
  "fst ` set (create_search_result c d) \<subseteq> {K_transactions, K_compromised_transactions}"
  using search_result_loop_keys [of "validate_transaction_object c" d "[]"]
  by (simp add: create_search_result_def)

lemma create_search_result_distinct: "distinct (map fst (create_search_result c d))"
  by (simp add: create_search_result_def search_result_loop_distinct)

lemma create_search_result_transactions:
  "(map_of (create_search_result c d) K_transactions = None)
     = (\<forall>p\<in>set d. fst p \<noteq> transaction_id (snd p))"
proof (cases "\<forall>p\<in>set d. fst p \<noteq> transaction_id (snd p)")
  case True
  then show ?thesis
    using search_result_loop_no_match [of d "validate_transaction_object c" "[]"]
    by (simp add: create_search_result_def)
next
  case False
  then have "\<exists>p\<in>set d. fst p = transaction_id (snd p)" by blast
  then have "map_of (create_search_result c d) K_transactions \<noteq> None"
    unfolding create_search_result_def by (rule search_result_loop_match)
  then show ?thesis using False by auto
qed

lemma dict_update_map_of:
  "distinct (map fst e) \<Longrightarrow>
   map_of (dict_update d e) k = (case map_of e k of Some v \<Rightarrow> Some v | None \<Rightarrow> map_of d k)"
proof (induction e arbitrary: d)
  case Nil
  show ?case by (simp add: dict_update_def)
next
  case (Cons x e)
  have d: "distinct (map fst e)" and n: "fst x \<notin> fst ` set e"
    using Cons.prems by simp_all
  have n': "map_of e (fst x) = None"
    using n by (simp add: map_of_eq_None_iff)
  have "map_of (dict_update d (x # e)) k = map_of (dict_update (AList.update (fst x) (snd x) d) e) k"
    by (simp add: dict_update_def)
  also have "\<dots> = (case map_of e k of Some v \<Rightarrow> Some v
                     | None \<Rightarrow> map_of (AList.update (fst x) (snd x) d) k)"
    by (rule Cons.IH [OF d])
  also have "\<dots> = (case map_of (x # e) k of Some v \<Rightarrow> Some v | None \<Rightarrow> map_of d k)"
    using n' by (cases x) (auto simp add: update_conv' split: option.splits)
  finally show ?case .
qed

lemma create_search_result_absent:
  "k \<noteq> K_transactions \<Longrightarrow> k \<noteq> K_compromised_transactions
     \<Longrightarrow> map_of (create_search_result c d) k = None"
  using create_search_result_keys [of c d]
  by (auto simp add: map_of_eq_None_iff)

text \<open>
  Claim C6, amended. For a registered domain, a \<open>REQUEST_SEARCH_WITH_CONDITIONS\<close>
  with source and query id is answered by one message routed through the routing table,
  a \<open>RESPONSE_SEARCH_WITH_CONDITIONS\<close> to the requester with the query id. Its status
  is \<open>ENOTRANSACTION\<close>, with no list, when the storage answers \<open>None\<close> or an empty
  dictionary, and also when every object found disagrees with the id it is stored under.
  Otherwise the status is \<open>ESUCCESS\<close> and the message carries the lists of
  \<open>_create_search_result\<close>: \<open>transactions\<close>, and \<open>compromised_transactions\<close> when
  there is one.
\<close>

theorem search_with_conditions_reply:
  assumes reg: "map_of (domains c) d = Some dm"
    and cmd: "map_of dat K_command = Some (VCmd REQUEST_SEARCH_WITH_CONDITIONS)"
    and src: "map_of dat K_source_user_id = Some src"
    and qid: "map_of dat K_query_id = Some qid"
    and dom: "map_of dat K_domain_id = Some (VBytes d)"
    and found: "search_transaction_cond (domain_data dm)
                  (get_default dat K_asset_group_id VNone) (get_default dat K_asset_id VNone)
                  (get_default dat K_user_id VNone) (get_default dat K_direction (VInt 0))
                  (get_default dat K_count (VInt 1)) = found"
  shows "\<exists>msg. process c dat = ([Routed d msg], Inr (False, None))
      \<and> map_of msg K_command = Some (VCmd RESPONSE_SEARCH_WITH_CONDITIONS)
      \<and> map_of msg K_destination_user_id = Some src
      \<and> map_of msg K_query_id = Some qid
      \<and> (case found of
            None \<Rightarrow> map_of msg K_status = Some (VStatus ENOTRANSACTION)
          | Some ret \<Rightarrow>
              if ret = [] \<or> (\<forall>p\<in>set ret. fst p \<noteq> transaction_id (snd p))
              then map_of msg K_status = Some (VStatus ENOTRANSACTION)
                   \<and> map_of msg K_reason = Some (VStr ''Cannot find transaction'')
                   \<and> map_of msg K_transactions = None
                   \<and> map_of msg K_compromised_transactions = None
              else map_of msg K_status = Some (VStatus ESUCCESS)
                   \<and> map_of msg K_transactions = map_of (create_search_result c ret) K_transactions
                   \<and> map_of msg K_transactions \<noteq> None
                   \<and> map_of msg K_compromised_transactions
                       = map_of (create_search_result c ret) K_compromised_transactions)"
proof -
  let ?retmsg = "make_message_structure (Some d) RESPONSE_SEARCH_WITH_CONDITIONS src qid"
  let ?err = "AList.update K_reason (VStr ''Cannot find transaction'')
                (AList.update K_status (VStatus ENOTRANSACTION) ?retmsg)"
  have g: "bytes_get dat K_domain_id = Inr (Some d)"
    using dom by (simp add: bytes_get_def bytes_arg_def)
  have p: "process c dat = process_search_with_conditions c (UmrReal d) (Some d) dat"
    using cmd src dom reg
    by (simp add: process_def g item_def on_value_def after_def checked_def umr_of_def
        param_check_def)
  have er: "finish (error_reply_or_direct c ?retmsg ENOTRANSACTION ''Cannot find transaction'')
       = ([Routed d ?err], Inr (False, None))"
    using reg
    by (simp add: finish_def error_reply_or_direct_def error_reply_def make_message_structure_def
        opt_bytes_def domain_key_def Let_def)
  have errmsg: "map_of ?err K_command = Some (VCmd RESPONSE_SEARCH_WITH_CONDITIONS)"
    "map_of ?err K_destination_user_id = Some src" "map_of ?err K_query_id = Some qid"
    "map_of ?err K_status = Some (VStatus ENOTRANSACTION)"
    "map_of ?err K_reason = Some (VStr ''Cannot find transaction'')"
    "map_of ?err K_transactions = None" "map_of ?err K_compromised_transactions = None"
    by (simp_all add: make_message_structure_def)
  show ?thesis
  proof (cases found)
    case None
    have "process c dat = ([Routed d ?err], Inr (False, None))"
      using src qid reg found None
      by (simp add: p process_search_with_conditions_def search_transaction_with_condition_def
          domains_get_def item_def on_value_def er Let_def)
    then show ?thesis using errmsg None by simp
  next
    case (Some ret)
    show ?thesis
    proof (cases "ret = [] \<or> (\<forall>p\<in>set ret. fst p \<noteq> transaction_id (snd p))")
      case True
      have "process c dat = ([Routed d ?err], Inr (False, None))"
        using src qid reg found Some True create_search_result_transactions [of c ret]
        by (auto simp add: p process_search_with_conditions_def search_transaction_with_condition_def
            domains_get_def item_def on_value_def er Let_def)
      then show ?thesis using errmsg Some True by auto
    next
      case False
      let ?info = "create_search_result c ret"
      let ?msg = "dict_update ?retmsg ?info"
      have "map_of ?info K_transactions \<noteq> None"
        using False create_search_result_transactions [of c ret] by blast
      then obtain tv where t: "map_of ?info K_transactions = Some tv"
        by blast
      have pr: "process c dat = ([Routed d ?msg], Inr (False, None))"
        using src qid reg found Some False t
        by (simp add: p process_search_with_conditions_def search_transaction_with_condition_def
            domains_get_def item_def on_value_def finish_def umr_send_def Let_def)
      have m: "map_of ?msg k = (case map_of ?info k of Some v \<Rightarrow> Some v | None \<Rightarrow> map_of ?retmsg k)" for k
        by (rule dict_update_map_of [OF create_search_result_distinct])
      have "map_of ?msg K_command = Some (VCmd RESPONSE_SEARCH_WITH_CONDITIONS)"
        "map_of ?msg K_destination_user_id = Some src" "map_of ?msg K_query_id = Some qid"
        "map_of ?msg K_status = Some (VStatus ESUCCESS)"
        "map_of ?msg K_transactions = map_of ?info K_transactions"
        "map_of ?msg K_compromised_transactions = map_of ?info K_compromised_transactions"
        unfolding m
        by (simp_all add: t create_search_result_absent make_message_structure_def
            split: option.splits)
      then show ?thesis using pr Some False t by auto
    qed
  qed
qed

theorem search_with_conditions_reply_witness:
  "\<exists>msg. process (core_of match_store accept_all)
           [(K_domain_id, VBytes ''d1''), (K_command, VCmd REQUEST_SEARCH_WITH_CONDITIONS),
            (K_source_user_id, VBytes ''u1''), (K_query_id, VBytes ''q1'')]
         = ([Routed ''d1'' msg], Inr (False, None))
      \<and> map_of msg K_command = Some (VCmd RESPONSE_SEARCH_WITH_CONDITIONS)
      \<and> map_of msg K_status = Some (VStatus ESUCCESS)
      \<and> map_of msg K_transactions = Some (VList [VBytes ''x1''])
      \<and> map_of msg K_compromised_transactions = None"
proof -
  let ?c = "core_of match_store accept_all"
  let ?dat = "[(K_domain_id, VBytes ''d1''), (K_command, VCmd REQUEST_SEARCH_WITH_CONDITIONS),
            (K_source_user_id, VBytes ''u1''), (K_query_id, VBytes ''q1'')]"
  let ?ret = "[(''t1'', \<lparr>transaction_id = ''t1'', transaction_data = ''x1''\<rparr>)]"
  have reg: "map_of (domains ?c) ''d1'' = Some \<lparr>domain_data = match_store, domain_name = ''n1''\<rparr>"
    by (simp add: core_of_def)
  have k: "map_of ?dat K_command = Some (VCmd REQUEST_SEARCH_WITH_CONDITIONS)"
    "map_of ?dat K_source_user_id = Some (VBytes ''u1'')"
    "map_of ?dat K_query_id = Some (VBytes ''q1'')"
    "map_of ?dat K_domain_id = Some (VBytes ''d1'')"
    by simp_all
  have f: "search_transaction_cond (domain_data \<lparr>domain_data = match_store, domain_name = ''n1''\<rparr>)
                  (get_default ?dat K_asset_group_id VNone) (get_default ?dat K_asset_id VNone)
                  (get_default ?dat K_user_id VNone) (get_default ?dat K_direction (VInt 0))
                  (get_default ?dat K_count (VInt 1)) = Some ?ret"
    by (simp add: env_defs)
  have i: "create_search_result ?c ?ret = [(K_transactions, VList [VBytes ''x1''])]"
    by (simp add: create_search_result_def truth_value_def tuple3_len_def setdefault_append_def
        env_defs)
  obtain msg where "process ?c ?dat = ([Routed ''d1'' msg], Inr (False, None))"
    "map_of msg K_command = Some (VCmd RESPONSE_SEARCH_WITH_CONDITIONS)"
    "map_of msg K_status = Some (VStatus ESUCCESS)"
    "map_of msg K_transactions = Some (VList [VBytes ''x1''])"
    "map_of msg K_compromised_transactions = None"
    using search_with_conditions_reply [OF reg k f] by (auto simp add: i)
  then show ?thesis by (intro exI [of _ msg] conjI)
qed

text \<open>
  Claim C6 as stated fails when the storage finds objects and all of them are
  compromised: the result set holds one object, stored under an id that is not its own,
  and the reply has status \<open>ENOTRANSACTION\<close> and carries no list.
\<close>

theorem only_compromised_is_not_found:
  "process (core_of mismatch_store accept_all)
       [(K_domain_id, VBytes ''d1''), (K_command, VCmd REQUEST_SEARCH_WITH_CONDITIONS),
        (K_source_user_id, VBytes ''u1''), (K_query_id, VBytes ''q1'')]
     = ([Routed ''d1''
           [(K_domain_id, VBytes ''d1''), (K_command, VCmd RESPONSE_SEARCH_WITH_CONDITIONS),
            (K_destination_user_id, VBytes ''u1''), (K_query_id, VBytes ''q1''),
            (K_status, VStatus ENOTRANSACTION), (K_reason, VStr ''Cannot find transaction'')]],
        Inr (False, None))
   \<and> search_transaction_cond mismatch_store VNone VNone VNone (VInt 0) (VInt 1)
     = Some [(''t1'', \<lparr>transaction_id = ''t2'', transaction_data = ''x1''\<rparr>)]"
  by (simp add: process_def process_search_with_conditions_def
      search_transaction_with_condition_def create_search_result_def setdefault_append_def
      msg_defs env_defs)

section \<open>The traversal inside a closed set of ids\<close>

lemma visit_within:
  assumes w: "within dh p R st (x # xs)" and cl: "closed_under dh p R"
  shows "within dh p R (visit dh ag u p st x) xs"
proof -
  let ?st = "visit dh ag u p st x"
  have c: "counted ?st"
    using w by (simp add: within_def visit_counted)
  have xR: "x \<in> R" and tR: "set (txids st) \<subseteq> R" and nR: "set (next_txids st) \<subseteq> R"
    and xsR: "set xs \<subseteq> R"
    and le: "tx_count st + Suc (length xs) + length (next_txids st)
               \<le> 1 + sum_list (map (degree dh p) (txids st))"
    using w by (simp_all add: within_def)
  have nbR: "neighbours dh p x \<subseteq> R"
    using cl xR by (simp add: closed_under_def)
  have t': "set (txids ?st) \<subseteq> R"
    using tR xR by (simp add: visit_txids)
  consider
    (same) "next_txids ?st = next_txids st"
  | (more) "raised st = None" "x \<notin> set (txids st)"
      "next_txids ?st = topology_loop p (txids st @ [x]) (rows dh p x) (next_txids st)"
    using visit_cases [of dh ag u p st x] by (elim disjE conjE) auto
  then show ?thesis
  proof cases
    case same
    have "tx_count ?st + length xs + length (next_txids ?st)
            \<le> 1 + sum_list (map (degree dh p) (txids ?st))"
      using le by (simp add: same visit_txids visit_tx_count)
    then show ?thesis using c t' nR xsR by (simp add: within_def same)
  next
    case more
    have s: "set (next_txids ?st) \<subseteq> set (next_txids st) \<union> neighbours dh p x"
      unfolding more(3) neighbours_def by (rule topology_loop_set)
    have n': "set (next_txids ?st) \<subseteq> R"
      using s by (rule subset_trans) (rule Un_least [OF nR nbR])
    have l: "length (next_txids ?st) \<le> length (next_txids st) + degree dh p x"
      unfolding more(3) degree_def by (rule topology_loop_length)
    have "tx_count ?st + length xs + length (next_txids ?st)
            \<le> 1 + sum_list (map (degree dh p) (txids ?st))"
      using le l more(1,2) by (simp add: visit_txids visit_tx_count)
    then show ?thesis using c t' n' xsR by (simp add: within_def)
  qed
qed

lemma fold_visit_within:
  "within dh p R st xs \<Longrightarrow> closed_under dh p R
     \<Longrightarrow> within dh p R (foldl (visit dh ag u p) st xs) []"
  by (induction xs arbitrary: st) (simp_all add: visit_within)

lemma layer_within:
  assumes "within_loop dh p R st" and "closed_under dh p R"
  shows "raised (layer dh ag u p st) \<noteq> None \<or> within_loop dh p R (layer dh ag u p st)"
proof -
  define S where "S = foldl (visit dh ag u p)
     (st\<lparr>tx_brothers := [], next_txids := [], layers_done := layers_done st + 1\<rparr>) (current_txids st)"
  have "within dh p R
     (st\<lparr>tx_brothers := [], next_txids := [], layers_done := layers_done st + 1\<rparr>) (current_txids st)"
    using assms(1) by (simp add: within_def within_loop_def counted_def)
  then have S: "within dh p R S []"
    unfolding S_def using assms(2) by (rule fold_visit_within)
  have l: "layer dh ag u p st =
     (if raised S \<noteq> None then S
      else S\<lparr>txtree := (if length (tx_brothers S) > 0 then txtree S @ [tx_brothers S] else txtree S),
              current_txids := next_txids S\<rparr>)"
    by (simp add: layer_def Let_def S_def)
  show ?thesis
  proof (cases "raised S = None")
    case True
    then show ?thesis using S by (simp add: l within_def within_loop_def counted_def)
  next
    case False
    then show ?thesis by (simp add: l)
  qed
qed

lemma within_loop_bound:
  assumes w: "within_loop dh p R st" and f: "finite R"
    and b: "1 + sum (degree dh p) R \<le> TX_TRAVERSAL_MAX"
  shows "tx_count st + length (current_txids st) \<le> TX_TRAVERSAL_MAX"
proof -
  have d: "distinct (txids st)" and s: "set (txids st) \<subseteq> R"
    using w by (simp_all add: within_loop_def counted_def)
  have "sum_list (map (degree dh p) (txids st)) = sum (degree dh p) (set (txids st))"
    using d by (rule sum_list_distinct_conv_sum_set)
  also have "\<dots> \<le> sum (degree dh p) R"
    using f s by (rule sum_mono2) simp
  finally have "1 + sum_list (map (degree dh p) (txids st)) \<le> TX_TRAVERSAL_MAX"
    using b by simp
  then show ?thesis using w by (simp add: within_loop_def)
qed

lemma loop_flag_kept:
  assumes f: "finite R" and cl: "closed_under dh p R"
    and b: "1 + sum (degree dh p) R \<le> TX_TRAVERSAL_MAX"
  shows "within_loop dh p R st \<Longrightarrow> include_all_flag st
           \<Longrightarrow> include_all_flag (traverse_loop dh ag u p n st)"
proof (induction n arbitrary: st)
  case 0
  then show ?case by simp
next
  case (Suc n)
  have le: "tx_count st + length (current_txids st) \<le> TX_TRAVERSAL_MAX"
    using Suc.prems(1) f b by (rule within_loop_bound)
  have fl: "include_all_flag (layer dh ag u p st)"
    using Suc.prems(2) by (simp add: layer_flag)
  show ?case
  proof (cases "raised (layer dh ag u p st) = None")
    case True
    then have "within_loop dh p R (layer dh ag u p st)"
      using layer_within [OF Suc.prems(1) cl, of ag u] by simp
    then have "include_all_flag (traverse_loop dh ag u p n (layer dh ag u p st))"
      using fl by (rule Suc.IH)
    then show ?thesis using le True by (simp add: Let_def)
  next
    case False
    then show ?thesis using le fl by (simp add: Let_def)
  qed
qed

lemma start_within:
  "t0 \<in> R \<Longrightarrow> within_loop dh p R (traverse_start t0 hop)"
  by (simp add: within_loop_def traverse_start_def counted_def)

lemma final_flag_kept:
  assumes "hop \<le> 60" and "finite R" and "t0 \<in> R" and "closed_under dh (dir = 1) R"
    and "1 + sum (degree dh (dir = 1)) R \<le> 30"
  shows "include_all_flag (traverse_final dh t0 ag u dir hop)"
proof -
  have b: "1 + sum (degree dh (dir = 1)) R \<le> TX_TRAVERSAL_MAX"
    using assms(5) by (simp add: TX_TRAVERSAL_MAX_def)
  have s: "include_all_flag (traverse_start t0 hop)"
    using assms(1) by (simp add: traverse_start_def TX_TRAVERSAL_MAX_def)
  show ?thesis
    unfolding traverse_final_def
    using assms(2,4) b start_within [OF assms(3)] s by (rule loop_flag_kept)
qed

section \<open>C7: termination, single lookups and the flag\<close>

text \<open>
  Claim C7, amended. The traversal is a bounded loop: \<open>traverse_final\<close> is defined
  by recursion on the number of iterations left and on the lists it walks, so it ends
  for every \<open>hop_count\<close> and every topology, after at most the clamped \<open>hop_count\<close>
  layers. No id is passed twice to \<open>search_transaction\<close>, and none twice to
  \<open>search_transaction_topology\<close>. The flag stays true whenever \<open>hop_count\<close> is at
  most 60 and the start lies in a finite set of ids, closed under the neighbour relation
  of the chosen direction, whose topology rows number at most 29: an id counts once for
  each row that names it, since line 677 adds the length of the candidate list. For a
  registered domain the flag that \<open>_traverse_transactions\<close> returns is the flag of
  this state (\<open>traverse_transactions_registered\<close>).
\<close>

theorem lookups_once_flag_kept:
  "distinct (searched (traverse_final dh t0 ag u dir hop))
   \<and> distinct (expanded (traverse_final dh t0 ag u dir hop))
   \<and> layers_done (traverse_final dh t0 ag u dir hop) \<le> clamped_hop_count hop
   \<and> (hop \<le> 60 \<and> finite R \<and> t0 \<in> R \<and> closed_under dh (dir = 1) R
        \<and> 1 + sum (degree dh (dir = 1)) R \<le> 30
      \<longrightarrow> include_all_flag (traverse_final dh t0 ag u dir hop))"
proof -
  have 1: "distinct (searched (traverse_final dh t0 ag u dir hop))"
    using final_counted(1) [of dh t0 ag u dir hop] by (simp add: counted_def)
  have 2: "distinct (expanded (traverse_final dh t0 ag u dir hop))"
    using final_pruned [of dh ag u dir t0 hop] by (simp add: pruned_result_def)
  have 3: "layers_done (traverse_final dh t0 ag u dir hop) \<le> clamped_hop_count hop"
    using loop_layers_done [of dh ag u "dir = 1" "clamped_hop_count hop" "traverse_start t0 hop"]
    by (simp add: traverse_final_def traverse_start_def)
  show ?thesis using 1 2 3 final_flag_kept [of hop R t0 dh dir ag u] by simp
qed

theorem lookups_once_flag_kept_witness:
  "include_all_flag (traverse_final cycle_store ''A'' None None 1 5)
   \<and> distinct (searched (traverse_final cycle_store ''A'' None None 1 5))
   \<and> closed_under cycle_store True {''A'', ''B''}
   \<and> neighbours cycle_store True ''B'' = {''A''}"
proof -
  have c: "closed_under cycle_store True {''A'', ''B''}"
    and n: "neighbours cycle_store True ''B'' = {''A''}"
    and s: "1 + sum (degree cycle_store True) {''A'', ''B''} \<le> 30"
    by (simp_all add: prop_defs next_txid_def cycle_store_def env_defs)
  have h: "(5::int) \<le> 60" "finite {''A'', ''B''}" "''A'' \<in> {''A'', ''B''}" "((1::int) = 1) = True"
    by simp_all
  show ?thesis
    using lookups_once_flag_kept [of cycle_store "''A''" None None 1 5 "{''A'', ''B''}"] c n s h
    by simp
qed

text \<open>
  Claim C7 as stated fails on a graph whose paths meet again: \<open>A\<close> refers to five
  transactions, each of which refers to the same five others. Eleven ids can be reached
  and \<open>hop_count\<close> is three, yet the third layer has 25 candidates and the flag is
  cleared.
\<close>

theorem reconverging_graph_clears_flag:
  "traverse_transactions (core_of fan_store accept_all) (Some ''d1'') (Some ''A'') None None 1 3
     = Inr (Some (False, [[''dA''], [''dB1'', ''dB2'', ''dB3'', ''dB4'', ''dB5'']]))
   \<and> closed_under fan_store True (set (''A'' # fan_bs @ fan_cs))
   \<and> card (set (''A'' # fan_bs @ fan_cs)) = 11"
  by (simp add: trav_defs prop_defs env_defs eval_nat_numeral)

section \<open>C8: the tree of a transaction without ancestors\<close>

text \<open>
  Claim C8, at an input where the code departs from it. \<open>B\<close> is stored and refers to
  no earlier transaction. The backward traversal from \<open>B\<close> with \<open>hop_count = 3\<close>
  returns a tree of one layer that holds \<open>B\<close> itself, not the empty tree: the first
  layer is the start transaction, where the docstring of lines 641 and 642 announces the
  transactions one hop from the base.
\<close>

theorem start_transaction_in_tree:
  "traverse_transactions (core_of chain_store accept_all) (Some ''d1'') (Some ''B'') None None 1 3
     = Inr (Some (True, [[''dB'']]))
   \<and> search_transaction_topology chain_store ''B'' True = Some []"
  by (simp add: trav_defs env_defs eval_nat_numeral)

section \<open>C9: the fan-out of sign requests\<close>

lemma gather_loop_sends:
  assumes "map_of dat K_transaction_data = Some txdata"
    and "sign_request_base d dat msg"
  shows "\<exists>msgs. gather_loop d dat src ds msg = (map (Routed d) msgs, Inr True)
           \<and> list_all2 (sign_request d dat) msgs (filter (\<lambda>dst. dst \<noteq> src) ds)"
  using assms(2)
proof (induction ds arbitrary: msg)
  case Nil
  show ?case by simp
next
  case (Cons dst ds)
  show ?case
  proof (cases "dst = src")
    case True
    then show ?thesis using Cons.IH [OF Cons.prems] by simp
  next
    case False
    define msg4 where "msg4 =
      (let msg1 = AList.update K_destination_user_id dst msg;
           msg2 = (case map_of dat K_hint of None \<Rightarrow> msg1 | Some h \<Rightarrow> AList.update K_hint h msg1);
           msg3 = AList.update K_transaction_data txdata msg2
       in (case map_of dat K_transactions of None \<Rightarrow> msg3 | Some ts \<Rightarrow> AList.update K_transactions ts msg3))"
    have q: "sign_request d dat msg4 dst"
      using Cons.prems assms(1)
      by (auto simp add: msg4_def sign_request_def sign_request_base_def Let_def update_conv'
          split: option.splits)
    have b: "sign_request_base d dat msg4"
      using q by (simp add: sign_request_def sign_request_base_def)
    obtain msgs where m: "gather_loop d dat src ds msg4 = (map (Routed d) msgs, Inr True)"
      "list_all2 (sign_request d dat) msgs (filter (\<lambda>dst. dst \<noteq> src) ds)"
      using Cons.IH [OF b] by blast
    have "gather_loop d dat src (dst # ds) msg = (map (Routed d) (msg4 # msgs), Inr True)"
      using False assms(1) m(1) by (simp add: msg4_def Let_def)
    moreover have "list_all2 (sign_request d dat) (msg4 # msgs) (filter (\<lambda>dst. dst \<noteq> src) (dst # ds))"
      using False q m(2) by simp
    ultimately show ?thesis by blast
  qed
qed

text \<open>
  Claim C9. Let the domain be registered and the request carry
  \<open>destination_user_ids\<close> (a list), \<open>source_user_id\<close>, \<open>query_id\<close> and
  \<open>transaction_data\<close>. Then \<open>_distribute_transaction_to_gather_signatures\<close> returns
  \<open>True\<close>, and its effects are one message routed through the routing table of the
  domain for each listed destination other than the requester, in the order of the list
  and to no one else: a \<open>REQUEST_SIGNATURE\<close> addressed to that destination, with the
  requester as source, the query id, the transaction data, and the hint and the
  transactions of the request when it has them. What the routing table answers to a
  send is not read.
\<close>

theorem gather_signatures_fan_out:
  assumes reg: "map_of (domains c) d = Some dm"
    and dests: "map_of dat K_destination_user_ids = Some (VList ds)"
    and src: "map_of dat K_source_user_id = Some src"
    and qid: "map_of dat K_query_id = Some qid"
    and txdata: "map_of dat K_transaction_data = Some txdata"
  shows "\<exists>msgs. distribute_transaction_to_gather_signatures c (Some d) dat
                  = (map (Routed d) msgs, Inr True)
           \<and> list_all2 (sign_request d dat) msgs (filter (\<lambda>dst. dst \<noteq> src) ds)"
proof -
  have b: "sign_request_base d dat
     (AList.update K_source_user_id src (make_message_structure (Some d) REQUEST_SIGNATURE VNone qid))"
    using src qid by (simp add: sign_request_base_def make_message_structure_def opt_bytes_def)
  have "distribute_transaction_to_gather_signatures c (Some d) dat
      = gather_loop d dat src ds
          (AList.update K_source_user_id src (make_message_structure (Some d) REQUEST_SIGNATURE VNone qid))"
    using reg dests src qid
    by (simp add: distribute_transaction_to_gather_signatures_def domains_get_def py_iter_def Let_def)
  then show ?thesis
    using gather_loop_sends [OF txdata b, of src ds] by simp
qed

theorem gather_signatures_fan_out_witness:
  "\<exists>msgs. distribute_transaction_to_gather_signatures (core_of chain_store accept_all) (Some ''d1'')
       [(K_domain_id, VBytes ''d1''), (K_command, VCmd REQUEST_GATHER_SIGNATURE),
        (K_source_user_id, VBytes ''u1''), (K_query_id, VBytes ''q1''),
        (K_transaction_data, VBytes ''raw''),
        (K_destination_user_ids, VList [VBytes ''u2'', VBytes ''u1'', VBytes ''u3''])]
      = (map (Routed ''d1'') msgs, Inr True)
    \<and> map (\<lambda>msg. map_of msg K_destination_user_id) msgs = [Some (VBytes ''u2''), Some (VBytes ''u3'')]"
proof -
  let ?c = "core_of chain_store accept_all"
  let ?dat = "[(K_domain_id, VBytes ''d1''), (K_command, VCmd REQUEST_GATHER_SIGNATURE),
      (K_source_user_id, VBytes ''u1''), (K_query_id, VBytes ''q1''),
      (K_transaction_data, VBytes ''raw''),
      (K_destination_user_ids, VList [VBytes ''u2'', VBytes ''u1'', VBytes ''u3''])]"
  have reg: "map_of (domains ?c) ''d1'' = Some \<lparr>domain_data = chain_store, domain_name = ''n1''\<rparr>"
    by (simp add: core_of_def)
  have k: "map_of ?dat K_destination_user_ids = Some (VList [VBytes ''u2'', VBytes ''u1'', VBytes ''u3''])"
    "map_of ?dat K_source_user_id = Some (VBytes ''u1'')"
    "map_of ?dat K_query_id = Some (VBytes ''q1'')"
    "map_of ?dat K_transaction_data = Some (VBytes ''raw'')"
    by simp_all
  obtain msgs where m: "distribute_transaction_to_gather_signatures ?c (Some ''d1'') ?dat
        = (map (Routed ''d1'') msgs, Inr True)"
    and l: "list_all2 (sign_request ''d1'' ?dat) msgs
              (filter (\<lambda>dst. dst \<noteq> VBytes ''u1'') [VBytes ''u2'', VBytes ''u1'', VBytes ''u3''])"
    using gather_signatures_fan_out [OF reg k] by blast
  from l have "list_all2 (\<lambda>msg dst. map_of msg K_destination_user_id = Some dst) msgs
                 [VBytes ''u2'', VBytes ''u3'']"
    by (auto simp add: sign_request_def elim: list_all2_mono)
  then have "map (\<lambda>msg. map_of msg K_destination_user_id) msgs = [Some (VBytes ''u2''), Some (VBytes ''u3'')]"
    by (auto simp add: list_all2_Cons2)
  with m show ?thesis by (intro exI [of _ msgs] conjI)
qed

section \<open>C10: a hop count of zero or less\<close>

lemma final_nonpositive:
  assumes "hop \<le> 0"
  shows "traverse_final dh t ag u dir hop = traverse_start t hop"
  using assms by (simp add: traverse_final_def clamped_hop_count_def TX_TRAVERSAL_MAX_def)

text \<open>
  Claim C10. For a registered domain and a start id that is not \<open>None\<close>, a
  \<open>hop_count\<close> of zero or less makes \<open>_traverse_transactions\<close> return
  \<open>(True, [])\<close> without a call of the storage handle, whatever the storage holds. For
  a traversal request that carries these values, \<open>_process\<close> then routes one reply
  with status \<open>ENOTRANSACTION\<close> and reason "Cannot find transaction".
\<close>

theorem nonpositive_hop_count:
  assumes reg: "map_of (domains c) d = Some dm" and hop: "hop \<le> 0"
  shows "traverse_transactions c (Some d) (Some t) ag u dir hop = Inr (Some (True, []))
     \<and> searched (traverse_final (domain_data dm) t ag u dir hop) = []
     \<and> expanded (traverse_final (domain_data dm) t ag u dir hop) = []
     \<and> (map_of dat K_command = Some (VCmd REQUEST_TRAVERSE_TRANSACTIONS)
          \<and> map_of dat K_source_user_id = Some src \<and> map_of dat K_query_id = Some qid
          \<and> map_of dat K_domain_id = Some (VBytes d) \<and> map_of dat K_transaction_id = Some (VBytes t)
          \<and> map_of dat K_direction = Some (VInt dir) \<and> map_of dat K_hop_count = Some (VInt hop)
          \<and> bytes_get dat K_asset_group_id = Inr ag \<and> bytes_get dat K_user_id = Inr u
        \<longrightarrow> process c dat =
              ([Routed d
                  [(K_domain_id, VBytes d), (K_command, VCmd RESPONSE_TRAVERSE_TRANSACTIONS),
                   (K_destination_user_id, src), (K_query_id, qid),
                   (K_status, VStatus ENOTRANSACTION), (K_transaction_id, VBytes t),
                   (K_reason, VStr ''Cannot find transaction'')]],
               Inr (False, None)))"
proof -
  have f: "traverse_final (domain_data dm) t ag u dir hop = traverse_start t hop"
    using hop by (rule final_nonpositive)
  have r: "traverse_transactions c (Some d) (Some t) ag u dir hop = Inr (Some (True, []))"
    using reg hop by (simp add: traverse_transactions_def domains_get_def f traverse_start_def TX_TRAVERSAL_MAX_def)
  have p: "process c dat =
              ([Routed d
                  [(K_domain_id, VBytes d), (K_command, VCmd RESPONSE_TRAVERSE_TRANSACTIONS),
                   (K_destination_user_id, src), (K_query_id, qid),
                   (K_status, VStatus ENOTRANSACTION), (K_transaction_id, VBytes t),
                   (K_reason, VStr ''Cannot find transaction'')]],
               Inr (False, None))"
    if k: "map_of dat K_command = Some (VCmd REQUEST_TRAVERSE_TRANSACTIONS)"
      "map_of dat K_source_user_id = Some src" "map_of dat K_query_id = Some qid"
      "map_of dat K_domain_id = Some (VBytes d)" "map_of dat K_transaction_id = Some (VBytes t)"
      "map_of dat K_direction = Some (VInt dir)" "map_of dat K_hop_count = Some (VInt hop)"
      "bytes_get dat K_asset_group_id = Inr ag" "bytes_get dat K_user_id = Inr u"
  proof -
    have g: "bytes_get dat K_domain_id = Inr (Some d)"
      using k(4) by (simp add: bytes_get_def bytes_arg_def)
    show ?thesis
      using k(1-7) reg
      by (simp add: process_def process_traverse_transactions_def g k(8,9) r
          item_def on_value_def after_def finish_def checked_def umr_of_def param_check_def
          bytes_arg_def domain_key_def int_arg_def direction_arg_def unpack_pair_def
          make_message_structure_def opt_bytes_def
          error_reply_or_direct_def error_reply_def Let_def)
  qed
  show ?thesis using r p by (simp add: f traverse_start_def)
qed

theorem nonpositive_hop_count_witness:
  "traverse_transactions (core_of chain_store accept_all) (Some ''d1'') (Some ''A'') None None 1 0
      = Inr (Some (True, []))
   \<and> search_transaction chain_store ''A''
      = Some [(''A'', \<lparr>transaction_id = ''A'', transaction_data = ''dA''\<rparr>)]
   \<and> process (core_of chain_store accept_all)
        [(K_domain_id, VBytes ''d1''), (K_command, VCmd REQUEST_TRAVERSE_TRANSACTIONS),
         (K_source_user_id, VBytes ''u1''), (K_query_id, VBytes ''q1''),
         (K_transaction_id, VBytes ''A''), (K_direction, VInt 1), (K_hop_count, VInt 0)]
      = ([Routed ''d1''
           [(K_domain_id, VBytes ''d1''), (K_command, VCmd RESPONSE_TRAVERSE_TRANSACTIONS),
            (K_destination_user_id, VBytes ''u1''), (K_query_id, VBytes ''q1''),
            (K_status, VStatus ENOTRANSACTION), (K_transaction_id, VBytes ''A''),
            (K_reason, VStr ''Cannot find transaction'')]],
         Inr (False, None))"
proof -
  have reg: "map_of (domains (core_of chain_store accept_all)) ''d1''
        = Some \<lparr>domain_data = chain_store, domain_name = ''n1''\<rparr>"
    by (simp add: core_of_def)
  have hop: "(0::int) \<le> 0" by simp
  have s: "search_transaction chain_store ''A''
      = Some [(''A'', \<lparr>transaction_id = ''A'', transaction_data = ''dA''\<rparr>)]"
    by (simp add: env_defs)
  show ?thesis
    using nonpositive_hop_count [OF reg hop, of "''A''" None None 1
      "[(K_domain_id, VBytes ''d1''), (K_command, VCmd REQUEST_TRAVERSE_TRANSACTIONS),
         (K_source_user_id, VBytes ''u1''), (K_query_id, VBytes ''q1''),
         (K_transaction_id, VBytes ''A''), (K_direction, VInt 1), (K_hop_count, VInt 0)]"
      "VBytes ''u1''" "VBytes ''q1''"] s
    by (simp add: bytes_get_def)
qed

end
